theory Spec2Isabelle
  imports Complex_Main "HOL-Library.Stream"
begin

section \<open>Values shared by the training pipelines of panel_train.py\<close>

text \<open>
  Exceptions of the Python source are values of the type \<open>error\<close>; a function that can
  raise returns \<open>error + 'a\<close>, with \<open>Inl\<close> for the raised exception.
\<close>

datatype error =
    KeyError string
  | LabelKeyError nat
  | ValueError string
  | ZeroDivisionError
  | IndexError
  | FileNotFoundError string
  | InvalidArgumentError

text \<open>
  Array entries are finite numbers, modelled as reals (rounding is not modelled). The
  result of a floating-point division can be non-finite, so results of divisions live in
  \<open>npfloat\<close>: a division by zero does not raise in numpy or in the tensor engine, it
  yields \<open>nan\<close> or an infinity.
\<close>

datatype npfloat = Fin real | PInf | NInf | NaN

definition np_true_divide :: "real \<Rightarrow> real \<Rightarrow> npfloat" where
  "np_true_divide x d =
     (if d \<noteq> 0 then Fin (x / d)
      else if x = 0 then NaN
      else if 0 < x then PInf
      else NInf)"

fun npfloat_add :: "npfloat \<Rightarrow> npfloat \<Rightarrow> npfloat" where
  "npfloat_add NaN _ = NaN"
| "npfloat_add _ NaN = NaN"
| "npfloat_add (Fin a) (Fin b) = Fin (a + b)"
| "npfloat_add PInf NInf = NaN"
| "npfloat_add NInf PInf = NaN"
| "npfloat_add PInf _ = PInf"
| "npfloat_add _ PInf = PInf"
| "npfloat_add NInf _ = NInf"
| "npfloat_add _ NInf = NInf"

fun npfloat_div_count :: "npfloat \<Rightarrow> nat \<Rightarrow> npfloat" where
  "npfloat_div_count (Fin s) n = np_true_divide s (real n)"
| "npfloat_div_count PInf n = PInf"
| "npfloat_div_count NInf n = NInf"
| "npfloat_div_count NaN n = NaN"

fun one_minus :: "npfloat \<Rightarrow> npfloat" where
  "one_minus (Fin d) = Fin (1 - d)"
| "one_minus PInf = NInf"
| "one_minus NInf = PInf"
| "one_minus NaN = NaN"

text \<open>
  A 4-dimensional array (count, height, width, channels) is a list of samples, each
  sample the flat list of its entries: every reduction of the source over the axes
  1, 2, 3 is a reduction over one whole sample, and \<open>np.max\<close> is over all entries.
\<close>

type_synonym tensor = "real list list"

definition same_shape :: "tensor \<Rightarrow> tensor \<Rightarrow> bool" where
  "same_shape a b = list_all2 (\<lambda>x y. length x = length y) a b"

definition all_zero :: "tensor \<Rightarrow> bool" where
  "all_zero a = list_all (list_all (\<lambda>x. x = 0)) a"

section \<open>The trainer and its hyperparameters\<close>

text \<open>
  \<open>__init__(self, batch_size, no_epochs, learning_rate)\<close> stores the three
  hyperparameters. The pretrained backbone and its layer dictionary belong to the
  external engine and are not part of the model.
\<close>

record trainer =
  no_of_epochs :: int
  batch_size :: int
  learning_rate :: real

definition init :: "int \<Rightarrow> int \<Rightarrow> real \<Rightarrow> trainer" where
  "init batch_size' no_epochs learning_rate' =
     \<lparr>no_of_epochs = no_epochs, batch_size = batch_size', learning_rate = learning_rate'\<rparr>"

section \<open>diceCoeff and diceCoeffLoss\<close>

text \<open>
  \<open>K.sum(x, axis=[1, 2, 3])\<close> gives one sum per sample; \<open>K.mean(r, axis=0)\<close> divides
  the sum of the per-sample values by their number (for no sample at all: 0 / 0).
  The elementwise product needs arrays of one shape; arrays of different shapes are
  outside the model and give \<open>InvalidArgumentError\<close>.
\<close>

definition K_sum :: "tensor \<Rightarrow> real list" where
  "K_sum x = map sum_list x"

definition K_mean :: "npfloat list \<Rightarrow> npfloat" where
  "K_mean rs = npfloat_div_count (foldl npfloat_add (Fin 0) rs) (length rs)"

definition tensor_mul :: "tensor \<Rightarrow> tensor \<Rightarrow> tensor" where
  "tensor_mul a b = map2 (\<lambda>x y. map2 (*) x y) a b"

definition diceCoeff :: "tensor \<Rightarrow> tensor \<Rightarrow> real \<Rightarrow> error + npfloat" where
  "diceCoeff y_true y_pred smooth =
     (if \<not> same_shape y_true y_pred then Inl InvalidArgumentError
      else
        let intersection = K_sum (tensor_mul y_true y_pred);
            union = map2 (+) (K_sum y_true) (K_sum y_pred)
        in Inr (K_mean (map2 (\<lambda>i u. np_true_divide (2 * i + smooth) (u + smooth))
                          intersection union)))"

definition diceCoeffLoss :: "tensor \<Rightarrow> tensor \<Rightarrow> error + npfloat" where
  "diceCoeffLoss y_true y_pred =
     (case diceCoeff y_true y_pred 1 of
        Inl e \<Rightarrow> Inl e
      | Inr d \<Rightarrow> Inr (one_minus d))"

section \<open>trainSegmentation and trainPanelClassifier\<close>

text \<open>
  \<open>np.max(mask)\<close> is the maximum over every entry of the whole array and raises
  ValueError on an array without entries. \<open>mask / np.max(mask)\<close> divides every entry
  by that one number; the source has no test of the maximum before the division.
\<close>

definition np_max :: "tensor \<Rightarrow> error + real" where
  "np_max a =
     (case concat a of
        [] \<Rightarrow> Inl (ValueError ''zero-size array to reduction operation maximum'')
      | x # xs \<Rightarrow> Inr (fold max xs x))"

definition normalize_mask :: "tensor \<Rightarrow> error + npfloat list list" where
  "normalize_mask a =
     (case np_max a of
        Inl e \<Rightarrow> Inl e
      | Inr m \<Rightarrow> Inr (map (map (\<lambda>x. np_true_divide x m)) a))"

text \<open>Python's \<open>//\<close> on integers: floor division, ZeroDivisionError on a zero divisor.\<close>

definition py_floordiv :: "int \<Rightarrow> int \<Rightarrow> error + int" where
  "py_floordiv n b = (if b = 0 then Inl ZeroDivisionError else Inr (n div b))"

text \<open>
  What the source hands to the external engine: the arguments of \<open>compile\<close>, of
  \<open>ModelCheckpoint\<close> and of \<open>fit\<close>. Building the network and the gradient descent are
  the engine's and are not modelled.
\<close>

datatype monitor_mode = ModeMin | ModeMax

record checkpoint_config =
  filepath :: string
  monitor :: string
  save_best_only :: bool
  mode :: monitor_mode

record compile_config =
  loss :: string
  optimizer_lr :: real
  optimizer_epsilon :: real
  metrics :: "string list"

record fit_config =
  epochs :: int
  steps_per_epoch :: int
  validation_steps :: int
  callbacks :: "checkpoint_config list"

text \<open>
  Modelled from the spec: \<open>ImageDataGenerator.flow\<close> belongs to the external engine and
  is not in the repository. Following the spec (4.1 and section 7): a number of images
  that differs from the number of masks is a fatal input error, raised before any
  training step. The generator made otherwise yields batches of the given size.
\<close>

record image_generator =
  sample_count :: nat
  generator_batch_size :: int

definition flow :: "'i list \<Rightarrow> 'm list \<Rightarrow> int \<Rightarrow> error + image_generator" where
  "flow x y bs =
     (if length x \<noteq> length y
      then Inl (ValueError ''x (images tensor) and y (labels) should have the same length'')
      else Inr \<lparr>sample_count = length x, generator_batch_size = bs\<rparr>)"

record segmentation_call =
  train_mask_normalized :: "npfloat list list"
  val_mask_normalized :: "npfloat list list"
  train_image_generator :: image_generator
  val_image_generator :: image_generator
  compile_args :: compile_config
  fit_args :: fit_config

definition segmentation_checkpoint :: "string \<Rightarrow> checkpoint_config" where
  "segmentation_checkpoint model_file_path =
     \<lparr>filepath = model_file_path, monitor = ''val_loss'', save_best_only = True,
      mode = ModeMax\<rparr>"

text \<open>
  \<open>train_data\<close> and \<open>val_data\<close> enter the modelled part only through their number of
  images (\<open>np.shape(train_data)[0]\<close>, and the comparison with the number of masks in
  \<open>flow\<close>); they are lists of images of any type. The steps follow the order of the
  source: the two normalizations, the two generators, \<open>compile\<close>, the checkpoint, and
  the arguments of \<open>fit\<close>.
\<close>

definition trainSegmentation ::
  "trainer \<Rightarrow> 'i list \<Rightarrow> tensor \<Rightarrow> 'i list \<Rightarrow> tensor \<Rightarrow> string \<Rightarrow> error + segmentation_call"
where
  "trainSegmentation self train_data train_mask val_data val_mask model_file_path =
     (case normalize_mask train_mask of
        Inl e \<Rightarrow> Inl e
      | Inr train_mask' \<Rightarrow>
     (case normalize_mask val_mask of
        Inl e \<Rightarrow> Inl e
      | Inr val_mask' \<Rightarrow>
     (case flow train_data train_mask' (batch_size self) of
        Inl e \<Rightarrow> Inl e
      | Inr train_gen \<Rightarrow>
     (case flow val_data val_mask' (batch_size self) of
        Inl e \<Rightarrow> Inl e
      | Inr val_gen \<Rightarrow>
     (let compiled = \<lparr>loss = ''binary_crossentropy'', optimizer_lr = learning_rate self,
                       optimizer_epsilon = 1 / 100000000,
                       metrics = [''accuracy'', ''diceCoeff'']\<rparr>;
          no_of_training_images = int (length train_data);
          no_of_val_images = int (length val_data);
          checkpoint = segmentation_checkpoint model_file_path
      in
     (case py_floordiv no_of_training_images (batch_size self) of
        Inl e \<Rightarrow> Inl e
      | Inr steps \<Rightarrow>
     (case py_floordiv no_of_val_images (batch_size self) of
        Inl e \<Rightarrow> Inl e
      | Inr val_steps \<Rightarrow>
        Inr \<lparr>train_mask_normalized = train_mask', val_mask_normalized = val_mask',
             train_image_generator = train_gen, val_image_generator = val_gen,
             compile_args = compiled,
             fit_args = \<lparr>epochs = no_of_epochs self, steps_per_epoch = steps,
                         validation_steps = val_steps, callbacks = [checkpoint]\<rparr>\<rparr>)))))))"

record classifier_call =
  directory_batch_size :: int
  clf_compile_args :: compile_config
  clf_fit_args :: fit_config

definition classifier_checkpoint :: "string \<Rightarrow> checkpoint_config" where
  "classifier_checkpoint model_file_path =
     \<lparr>filepath = model_file_path, monitor = ''val_accuracy'', save_best_only = True,
      mode = ModeMax\<rparr>"

text \<open>
  \<open>flow_from_directory\<close> walks the two directories; the source uses of its result only
  \<open>len(train_data.labels)\<close> and \<open>len(val_data.labels)\<close>, so the label arrays found
  under \<open>train_path\<close> and \<open>val_path\<close> are the arguments here.
\<close>

definition trainPanelClassifier ::
  "trainer \<Rightarrow> nat list \<Rightarrow> nat list \<Rightarrow> string \<Rightarrow> error + classifier_call"
where
  "trainPanelClassifier self train_labels val_labels model_file_path =
     (let no_of_training_images = int (length train_labels);
          no_of_val_images = int (length val_labels);
          compiled = \<lparr>loss = ''categorical_crossentropy'', optimizer_lr = 1 / 10000,
                       optimizer_epsilon = 1 / 100000000, metrics = [''accuracy'']\<rparr>;
          checkpoint = classifier_checkpoint model_file_path
      in
     (case py_floordiv no_of_training_images (batch_size self) of
        Inl e \<Rightarrow> Inl e
      | Inr steps \<Rightarrow>
     (case py_floordiv no_of_val_images (batch_size self) of
        Inl e \<Rightarrow> Inl e
      | Inr val_steps \<Rightarrow>
        Inr \<lparr>directory_batch_size = batch_size self,
             clf_compile_args = compiled,
             clf_fit_args = \<lparr>epochs = no_of_epochs self, steps_per_epoch = steps,
                             validation_steps = val_steps, callbacks = [checkpoint]\<rparr>\<rparr>)))"

section \<open>The checkpoint callback of the external engine\<close>

text \<open>
  The callback keeps the best monitored value seen so far; the files are a map from
  paths to model weights, and \<open>saved_epochs\<close> lists the epochs after which the
  checkpoint file was written.
\<close>

record 'w checkpoint_state =
  best :: "real option"
  files :: "string \<rightharpoonup> 'w"
  saved_epochs :: "nat list"

definition initial_checkpoint_state :: "(string \<rightharpoonup> 'w) \<Rightarrow> 'w checkpoint_state" where
  "initial_checkpoint_state fs = \<lparr>best = None, files = fs, saved_epochs = []\<rparr>"

text \<open>
  Modelled from the spec: the comparison of the engine's \<open>ModelCheckpoint\<close> callback
  is not in the repository, which only configures it. With \<open>ModeMax\<close> higher is
  better, with \<open>ModeMin\<close> lower is; without a previous epoch every value is an
  improvement.
\<close>

fun improves :: "monitor_mode \<Rightarrow> real \<Rightarrow> real option \<Rightarrow> bool" where
  "improves m current None = True"
| "improves ModeMax current (Some b) = (b < current)"
| "improves ModeMin current (Some b) = (current < b)"

definition save_model :: "checkpoint_config \<Rightarrow> nat \<Rightarrow> 'w \<Rightarrow> 'w checkpoint_state \<Rightarrow> 'w checkpoint_state" where
  "save_model cfg epoch weights st =
     st\<lparr>files := (files st)(filepath cfg \<mapsto> weights),
        saved_epochs := saved_epochs st @ [epoch]\<rparr>"

text \<open>
  Modelled from the spec: the epoch-end logic of the engine's \<open>ModelCheckpoint\<close>
  callback is not in the repository. Following the spec (4.1, 4.2 and the glossary):
  after every epoch, if the monitored metric improves under the configured comparison
  mode, the full weights are persisted to the given path, overwriting the previous
  checkpoint. An epoch whose logs lack the monitored metric writes nothing.
\<close>

definition on_epoch_end ::
  "checkpoint_config \<Rightarrow> nat \<Rightarrow> (string \<times> real) list \<Rightarrow> 'w \<Rightarrow> 'w checkpoint_state
   \<Rightarrow> 'w checkpoint_state"
where
  "on_epoch_end cfg epoch logs weights st =
     (if save_best_only cfg then
        (case map_of logs (monitor cfg) of
           None \<Rightarrow> st
         | Some current \<Rightarrow>
             if improves (mode cfg) current (best st)
             then save_model cfg epoch weights (st\<lparr>best := Some current\<rparr>)
             else st)
      else save_model cfg epoch weights st)"

text \<open>
  A run of \<open>fit\<close> as the callback sees it: one pair of logs and weights per epoch.
\<close>

fun run_epochs ::
  "checkpoint_config \<Rightarrow> nat \<Rightarrow> ((string \<times> real) list \<times> 'w) list \<Rightarrow> 'w checkpoint_state
   \<Rightarrow> 'w checkpoint_state"
where
  "run_epochs cfg epoch [] st = st"
| "run_epochs cfg epoch ((logs, weights) # rest) st =
     run_epochs cfg (Suc epoch) rest (on_epoch_end cfg epoch logs weights st)"

definition monitored :: "checkpoint_config \<Rightarrow> ((string \<times> real) list \<times> 'w) list \<Rightarrow> nat \<Rightarrow> real" where
  "monitored cfg run i = the (map_of (fst (run ! i)) (monitor cfg))"

definition exceeds_all_previous :: "checkpoint_config \<Rightarrow> ((string \<times> real) list \<times> 'w) list \<Rightarrow> nat \<Rightarrow> bool" where
  "exceeds_all_previous cfg run i =
     list_all (\<lambda>j. monitored cfg run j < monitored cfg run i) [0..<i]"

definition all_logged :: "checkpoint_config \<Rightarrow> ((string \<times> real) list \<times> 'w) list \<Rightarrow> bool" where
  "all_logged cfg run = list_all (\<lambda>(logs, w). map_of logs (monitor cfg) \<noteq> None) run"

section \<open>trainingStatistics\<close>

text \<open>
  The history is the dictionary \<open>results.history\<close>. The calls to the plotting library
  are recorded in order as events; the artifacts of a call are the names given to
  \<open>savefig\<close>. A call yields the events made and, when it raised, the exception.
\<close>

type_synonym history = "(string \<times> real list) list"

datatype event =
    Plot "real list" "string option"
  | XLabel string
  | YLabel string
  | Legend
  | SaveFig string
  | Show
  | Print string
  | PrintException error

definition getitem :: "history \<Rightarrow> string \<Rightarrow> error + real list" where
  "getitem h k = (case map_of h k of None \<Rightarrow> Inl (KeyError k) | Some v \<Rightarrow> Inr v)"

text \<open>The body of the \<open>try\<close> block: the first missing key raises.\<close>

definition validation_lookup ::
  "history \<Rightarrow> int \<Rightarrow> error + (real list \<times> real list \<times> real list option)"
where
  "validation_lookup h md =
     (case getitem h ''val_accuracy'' of
        Inl e \<Rightarrow> Inl e
      | Inr val_accuracy \<Rightarrow>
     (case getitem h ''val_loss'' of
        Inl e \<Rightarrow> Inl e
      | Inr val_loss \<Rightarrow>
        if md = 1 then
          (case getitem h ''val_diceCoeff'' of
             Inl e \<Rightarrow> Inl e
           | Inr val_dice_coef \<Rightarrow> Inr (val_accuracy, val_loss, Some val_dice_coef))
        else Inr (val_accuracy, val_loss, None)))"

definition curve :: "real list \<Rightarrow> string \<Rightarrow> event list" where
  "curve series name =
     [Plot series None, XLabel ''Epochs'', YLabel ''Percentage'', SaveFig name, Show]"

definition combined :: "(real list \<times> string) list \<Rightarrow> string \<Rightarrow> event list" where
  "combined curves name =
     map (\<lambda>(series, label). Plot series (Some label)) curves
     @ [XLabel ''Epochs'', YLabel ''Percentage'', Legend, SaveFig name, Show]"

text \<open>
  \<open>train_dice_coef\<close> and \<open>val_dice_coef\<close> are bound exactly when \<open>mode == 1\<close>; they are
  options here, \<open>Some\<close> exactly in that case, and the tests of the mode before their
  uses are the case distinctions on them.
\<close>

definition trainingStatistics :: "history \<Rightarrow> int \<Rightarrow> event list \<times> error option" where
  "trainingStatistics h md =
     (case getitem h ''accuracy'' of
        Inl e \<Rightarrow> ([], Some e)
      | Inr train_accuracy \<Rightarrow>
     (case getitem h ''loss'' of
        Inl e \<Rightarrow> ([], Some e)
      | Inr train_loss \<Rightarrow>
     (case (if md = 1 then map_sum id Some (getitem h ''diceCoeff'') else Inr None) of
        Inl e \<Rightarrow> ([], Some e)
      | Inr train_dice_coef \<Rightarrow>
     (let (printed, validation_metrics) =
            (case validation_lookup h md of
               Inl e \<Rightarrow> ([Print ''No validation metrics available.'', PrintException e],
                          None)
             | Inr v \<Rightarrow> ([], Some v))
      in
       (printed
        @ (case train_dice_coef of Some d \<Rightarrow> curve d ''Train_dice_coef'' | None \<Rightarrow> [])
        @ curve train_loss ''Train_loss''
        @ curve train_accuracy ''Train_accuracy''
        @ (case validation_metrics of
             None \<Rightarrow> []
           | Some (val_accuracy, val_loss, val_dice_coef) \<Rightarrow>
               (case val_dice_coef of Some d \<Rightarrow> curve d ''VAL_dice_coef'' | None \<Rightarrow> [])
               @ curve val_loss ''VAL_loss''
               @ curve val_accuracy ''VAL_accuracy'')
        @ combined ([(train_accuracy, ''train_accuracy''), (train_loss, ''train_loss'')]
                    @ (case train_dice_coef of
                         Some d \<Rightarrow> [(d, ''train_dice_coef'')] | None \<Rightarrow> []))
            ''Training statistics''
        @ (case validation_metrics of
             None \<Rightarrow> []
           | Some (val_accuracy, val_loss, val_dice_coef) \<Rightarrow>
               combined ([(val_accuracy, ''val_accuracy''), (val_loss, ''val_loss'')]
                         @ (case val_dice_coef of
                              Some d \<Rightarrow> [(d, ''val_dice_coef'')] | None \<Rightarrow> []))
                 ''Validation statistics''),
        None)))))"

fun artifacts :: "event list \<Rightarrow> string list" where
  "artifacts [] = []"
| "artifacts (SaveFig name # es) = name # artifacts es"
| "artifacts (e # es) = artifacts es"

definition has_key :: "history \<Rightarrow> string \<Rightarrow> bool" where
  "has_key h k = (map_of h k \<noteq> None)"

definition no_validation_keys :: "history \<Rightarrow> bool" where
  "no_validation_keys h = list_all (\<lambda>(k, v). take 4 k \<noteq> ''val_'') h"

section \<open>trainMountingConfigClassifier\<close>

text \<open>
  One row of the annotation table per labelled bounding box. The file system is a map
  from paths to files: a folder of per-image XML annotations (given by the rows it
  describes, or found malformed) or a CSV table.
\<close>

record annotation =
  filename :: string
  class_label :: string
  bbox :: "int \<times> int \<times> int \<times> int"

type_synonym table = "annotation list"

datatype file_content = XmlAnnotations table | MalformedXml | Csv table

type_synonym filesystem = "string \<rightharpoonup> file_content"

text \<open>
  Modelled from the spec: \<open>utils.xml_to_csv\<close> belongs to the detection library and is
  not in the repository. Following the spec (4.4 step 1 and section 7): it flattens the
  XML annotation set of the folder into one table and persists it in the output file;
  malformed or missing annotation XML is a fatal error of this step.
\<close>

definition xml_to_csv :: "string \<Rightarrow> string \<Rightarrow> filesystem \<Rightarrow> error + filesystem" where
  "xml_to_csv xml_folder output_file fs =
     (case fs xml_folder of
        Some (XmlAnnotations rows) \<Rightarrow> Inr (fs(output_file \<mapsto> Csv rows))
      | Some MalformedXml \<Rightarrow> Inl (ValueError ''ParseError'')
      | _ \<Rightarrow> Inl (FileNotFoundError xml_folder))"

text \<open>
  \<open>pd.read_csv\<close> and \<open>DataFrame.to_csv\<close>: reading gives the table of a CSV file and
  raises when there is none at the path; writing replaces the file at the path.
\<close>

definition read_csv :: "string \<Rightarrow> filesystem \<Rightarrow> error + table" where
  "read_csv p fs =
     (case fs p of
        Some (Csv rows) \<Rightarrow> Inr rows
      | _ \<Rightarrow> Inl (FileNotFoundError p))"

definition to_csv :: "table \<Rightarrow> string \<Rightarrow> filesystem \<Rightarrow> filesystem" where
  "to_csv rows p fs = fs(p \<mapsto> Csv rows)"

text \<open>
  \<open>value_counts\<close>: the number of rows of every class that occurs, by descending count.
  The library fixes no order among classes of equal count; no theorem below depends
  on the order. \<open>series_max\<close> is \<open>class_count.max()\<close>, which the source evaluates only
  inside the loop over the classes, hence on at least one count.
\<close>

definition value_counts :: "string list \<Rightarrow> (string \<times> nat) list" where
  "value_counts cs =
     sort_key (\<lambda>(c, n). - int n) (map (\<lambda>c. (c, count_list cs c)) (remdups cs))"

definition series_max :: "(string \<times> nat) list \<Rightarrow> nat" where
  "series_max class_count = fold max (map snd class_count) 0"

definition class_index_list :: "table \<Rightarrow> string \<Rightarrow> nat list" where
  "class_index_list td c = filter (\<lambda>i. class_label (td ! i) = c) [0..<length td]"

text \<open>
  The random source is the stream of the numbers that \<open>random()\<close> returns, each in
  [0, 1). \<open>choices(population, k=k)\<close> is
  \<open>[population[floor(random() * n)] for i in repeat(None, k)]\<close> with
  \<open>n = len(population)\<close>; indexing a Python list raises IndexError out of range and
  counts a negative index from the end.
\<close>

definition random :: "real stream \<Rightarrow> real \<times> real stream" where
  "random g = (shd g, stl g)"

definition uniform :: "real stream \<Rightarrow> bool" where
  "uniform g = (\<forall>u \<in> sset g. 0 \<le> u \<and> u < 1)"

definition py_getitem :: "'a list \<Rightarrow> int \<Rightarrow> error + 'a" where
  "py_getitem xs i =
     (let n = int (length xs); j = (if i < 0 then n + i else i)
      in if 0 \<le> j \<and> j < n then Inr (xs ! nat j) else Inl IndexError)"

fun choices :: "nat list \<Rightarrow> nat \<Rightarrow> real stream \<Rightarrow> error + (nat list \<times> real stream)" where
  "choices population 0 g = Inr ([], g)"
| "choices population (Suc k) g =
     (case py_getitem population \<lfloor>fst (random g) * real (length population)\<rfloor> of
        Inl e \<Rightarrow> Inl e
      | Inr x \<Rightarrow>
          (case choices population k (snd (random g)) of
             Inl e \<Rightarrow> Inl e
           | Inr (xs, g') \<Rightarrow> Inr (x # xs, g')))"

text \<open>\<open>train_data.loc[idx]\<close>: the row with index label idx, KeyError when there is none.\<close>

definition loc :: "table \<Rightarrow> nat \<Rightarrow> error + annotation" where
  "loc td idx = (if idx < length td then Inr (td ! idx) else Inl (LabelKeyError idx))"

text \<open>The inner loop: every drawn row is appended to the resampled table.\<close>

fun append_duplicates :: "table \<Rightarrow> nat list \<Rightarrow> table \<Rightarrow> error + table" where
  "append_duplicates td [] resampled = Inr resampled"
| "append_duplicates td (idx # rest) resampled =
     (case loc td idx of
        Inl e \<Rightarrow> Inl e
      | Inr dup \<Rightarrow> append_duplicates td rest (resampled @ [dup]))"

text \<open>The outer loop over \<open>class_count.items()\<close>.\<close>

fun resample_classes ::
  "table \<Rightarrow> (string \<times> nat) list \<Rightarrow> (string \<times> nat) list \<Rightarrow> table \<Rightarrow> real stream
   \<Rightarrow> error + (table \<times> real stream)"
where
  "resample_classes td class_count [] resampled g = Inr (resampled, g)"
| "resample_classes td class_count ((index, cnt) # rest) resampled g =
     (let number_times_resample = series_max class_count - cnt in
      case choices (class_index_list td index) number_times_resample g of
        Inl e \<Rightarrow> Inl e
      | Inr (idx_to_duplicate, g') \<Rightarrow>
          (case append_duplicates td idx_to_duplicate resampled of
             Inl e \<Rightarrow> Inl e
           | Inr resampled' \<Rightarrow> resample_classes td class_count rest resampled' g'))"

definition oversample :: "table \<Rightarrow> real stream \<Rightarrow> error + (table \<times> real stream)" where
  "oversample train_data g =
     (let class_count = value_counts (map class_label train_data)
      in resample_classes train_data class_count class_count train_data g)"

text \<open>
  The call up to the hand-over to the detection library: the file system after the
  conversion and the balancing, the tables that \<open>core.Dataset\<close> then reads from the two
  label files, and the hyperparameters given to the loader and to \<open>fit\<close>.
\<close>

record detection_call =
  fs_after :: filesystem
  rng_after :: "real stream"
  dataset :: table
  val_dataset :: table
  loader_batch_size :: int
  det_epochs :: int
  det_learning_rate :: real

definition labels_path :: "string \<Rightarrow> string" where
  "labels_path dir = dir @ ''/annotations.csv''"

definition conversion_step :: "string \<Rightarrow> string \<Rightarrow> filesystem \<Rightarrow> error + filesystem" where
  "conversion_step train_path val_path fs =
     (case xml_to_csv (train_path @ ''/annotations/'') (labels_path train_path) fs of
        Inl e \<Rightarrow> Inl e
      | Inr fs1 \<Rightarrow> xml_to_csv (val_path @ ''/annotations/'') (labels_path val_path) fs1)"

definition balancing_step ::
  "string \<Rightarrow> filesystem \<Rightarrow> real stream \<Rightarrow> error + (filesystem \<times> real stream)"
where
  "balancing_step train_path fs g =
     (case read_csv (labels_path train_path) fs of
        Inl e \<Rightarrow> Inl e
      | Inr train_data \<Rightarrow>
     (case oversample train_data g of
        Inl e \<Rightarrow> Inl e
      | Inr (train_data_resampled, g') \<Rightarrow>
          Inr (to_csv train_data_resampled (labels_path train_path) fs, g')))"

definition trainMountingConfigClassifier ::
  "trainer \<Rightarrow> string \<Rightarrow> string \<Rightarrow> filesystem \<Rightarrow> real stream \<Rightarrow> error + detection_call"
where
  "trainMountingConfigClassifier self train_path val_path fs g =
     (case conversion_step train_path val_path fs of
        Inl e \<Rightarrow> Inl e
      | Inr fs2 \<Rightarrow>
     (case balancing_step train_path fs2 g of
        Inl e \<Rightarrow> Inl e
      | Inr (fs3, g') \<Rightarrow>
     (case read_csv (labels_path train_path) fs3 of
        Inl e \<Rightarrow> Inl e
      | Inr ds \<Rightarrow>
     (case read_csv (labels_path val_path) fs3 of
        Inl e \<Rightarrow> Inl e
      | Inr val_ds \<Rightarrow>
        Inr \<lparr>fs_after = fs3, rng_after = g', dataset = ds, val_dataset = val_ds,
             loader_batch_size = batch_size self, det_epochs = no_of_epochs self,
             det_learning_rate = learning_rate self\<rparr>))))"

definition class_rows :: "string \<Rightarrow> table \<Rightarrow> nat" where
  "class_rows c t = length (filter (\<lambda>r. class_label r = c) t)"

definition classes :: "table \<Rightarrow> string set" where
  "classes t = class_label ` set t"

text \<open>
  For the statements about the loop: the class labels of the rows that the loop over
  \<open>class_count\<close> appends, class by class, given the maximum count.
\<close>

fun appended_labels :: "nat \<Rightarrow> (string \<times> nat) list \<Rightarrow> string list" where
  "appended_labels mx [] = []"
| "appended_labels mx ((c, n) # rest) = replicate (mx - n) c @ appended_labels mx rest"

section \<open>Properties of diceCoeff and diceCoeffLoss\<close>

lemma sum_list_all_zero: "list_all (\<lambda>x. x = 0) xs \<Longrightarrow> sum_list xs = (0::real)"
  by (induction xs) auto

lemma sum_list_mul_zero:
  "list_all (\<lambda>x. x = 0) xs \<Longrightarrow> sum_list (map2 (*) xs ys) = (0::real)"
  by (induction xs arbitrary: ys) (auto simp: zip_Cons1 split: list.splits)

lemma foldl_add_ones:
  "foldl npfloat_add (Fin a) (replicate n (Fin 1)) = Fin (a + real n)"
  by (induction n arbitrary: a) (auto simp: algebra_simps)

lemma dice_ratios_all_zero:
  "list_all2 (\<lambda>x y. length x = length y) t p \<Longrightarrow>
   list_all (list_all (\<lambda>x. x = 0)) t \<Longrightarrow> list_all (list_all (\<lambda>x. x = 0)) p \<Longrightarrow>
   map2 (\<lambda>i u. np_true_divide (2 * i + 1) (u + 1))
     (map sum_list (map2 (\<lambda>x y. map2 (*) x y) t p))
     (map2 (+) (map sum_list t) (map sum_list p)) = replicate (length t) (Fin 1)"
proof (induction t p rule: list_all2_induct)
  case Nil
  then show ?case by simp
next
  case (Cons x xs y ys)
  then show ?case
    by (simp add: sum_list_all_zero sum_list_mul_zero np_true_divide_def)
qed

text \<open>
  C6: on truth and prediction arrays of one shape that are zero everywhere (a batch of
  at least one sample), every per-sample denominator \<open>union + smooth\<close> is 1, hence not
  zero, and diceCoeff with smooth = 1 is exactly 1.
\<close>

theorem C6_diceCoeff_all_zero:
  assumes "same_shape y_true y_pred" and "y_true \<noteq> []"
    and "all_zero y_true" and "all_zero y_pred"
  shows "diceCoeff y_true y_pred 1 = Inr (Fin 1)
    \<and> (\<forall>u \<in> set (map2 (+) (K_sum y_true) (K_sum y_pred)). u + 1 = 1 \<and> u + 1 \<noteq> 0)"
proof -
  from assms(1) have sh: "list_all2 (\<lambda>x y. length x = length y) y_true y_pred"
    by (simp add: same_shape_def)
  from assms(3,4) have z: "list_all (list_all (\<lambda>x. x = 0)) y_true"
    "list_all (list_all (\<lambda>x. x = 0)) y_pred"
    by (simp_all add: all_zero_def)
  have n: "0 < length y_true" using assms(2) by simp
  have "diceCoeff y_true y_pred 1 = Inr (K_mean (replicate (length y_true) (Fin 1)))"
    using assms(1) dice_ratios_all_zero [OF sh z]
    by (simp add: diceCoeff_def K_sum_def tensor_mul_def)
  also have "K_mean (replicate (length y_true) (Fin 1)) = Fin 1"
    using n by (simp add: K_mean_def foldl_add_ones np_true_divide_def)
  finally have d: "diceCoeff y_true y_pred 1 = Inr (Fin 1)" .
  have "\<forall>u \<in> set (map2 (+) (K_sum y_true) (K_sum y_pred)). u = 0"
  proof
    fix u assume "u \<in> set (map2 (+) (K_sum y_true) (K_sum y_pred))"
    then obtain a b where ab: "(a, b) \<in> set (zip (K_sum y_true) (K_sum y_pred))" "u = a + b"
      by auto
    then have "a \<in> set (K_sum y_true)" "b \<in> set (K_sum y_pred)"
      by (auto dest: set_zip_leftD set_zip_rightD)
    then have "a = 0" "b = 0"
      using z by (auto simp: K_sum_def list_all_iff intro!: sum_list_all_zero)
    with ab show "u = 0" by simp
  qed
  with d show ?thesis by simp
qed

theorem C6_diceCoeff_all_zero_witness:
  "same_shape [[0, 0], [0, 0]] [[0, 0], [0, 0]] \<and> [[0, 0], [0, 0 :: real]] \<noteq> []
   \<and> all_zero [[0, 0], [0, 0]]
   \<and> diceCoeff [[0, 0], [0, 0]] [[0, 0], [0, 0]] 1 = Inr (Fin 1)"
  using C6_diceCoeff_all_zero [of "[[0, 0], [0, 0]]" "[[0, 0], [0, 0]]"]
  by (simp add: same_shape_def all_zero_def)

text \<open>
  C7: diceCoeffLoss is 1 minus diceCoeff on the same arguments with the default
  smoothing constant 1; on arrays of one shape it is defined whenever diceCoeff is,
  and a finite coefficient d gives the loss 1 - d.
\<close>

theorem C7_diceCoeffLoss_is_one_minus_diceCoeff:
  "diceCoeffLoss y_true y_pred = map_sum id one_minus (diceCoeff y_true y_pred 1)
   \<and> (\<forall>d. diceCoeff y_true y_pred 1 = Inr (Fin d)
          \<longrightarrow> diceCoeffLoss y_true y_pred = Inr (Fin (1 - d)))"
  by (auto simp: diceCoeffLoss_def split: sum.splits)

theorem C7_diceCoeffLoss_witness:
  "diceCoeff [[1, 0], [1, 1]] [[1, 1], [0, 0]] 1 = Inr (Fin (13 / 24))
   \<and> diceCoeffLoss [[1, 0], [1, 1]] [[1, 1], [0, 0]] = Inr (Fin (11 / 24))"
proof -
  have d: "diceCoeff [[1, 0], [1, 1]] [[1, 1], [0, 0]] 1 = Inr (Fin (13 / 24))"
    by (simp add: diceCoeff_def same_shape_def K_sum_def K_mean_def tensor_mul_def
        np_true_divide_def)
  with C7_diceCoeffLoss_is_one_minus_diceCoeff [of "[[1, 0], [1, 1]]" "[[1, 1], [0, 0]]"]
  show ?thesis by simp
qed

section \<open>The mask normalization of trainSegmentation\<close>

lemma np_max_nonempty: "concat a \<noteq> [] \<Longrightarrow> np_max a = Inr (Max (set (concat a)))"
proof -
  assume "concat a \<noteq> []"
  then obtain x xs where c: "concat a = x # xs" by (cases "concat a") auto
  have "fold max xs x = Max (set (x # xs))" by (simp only: Max.set_eq_fold)
  with c show ?thesis by (simp add: np_max_def)
qed

lemma normalize_mask_nonempty:
  "concat a \<noteq> [] \<Longrightarrow>
   normalize_mask a = Inr (map (map (\<lambda>x. np_true_divide x (Max (set (concat a))))) a)"
  by (simp add: normalize_mask_def np_max_nonempty)

lemma all_zero_Max:
  assumes "all_zero a" and "concat a \<noteq> []"
  shows "Max (set (concat a)) = 0"
proof -
  define S where "S = set (concat a)"
  from assms(1) have "\<forall>x \<in> set (concat a). x = 0"
    by (auto simp: all_zero_def list_all_iff)
  then have z: "\<forall>x \<in> S. x = 0" unfolding S_def .
  from assms(2) have "set (concat a) \<noteq> {}" unfolding set_empty .
  then have "S \<noteq> {}" unfolding S_def .
  with z have "S = {0}" by auto
  then have "Max S = 0" by simp
  then show ?thesis unfolding S_def .
qed

lemma all_zero_divide:
  assumes "all_zero a"
  shows "map (map (\<lambda>x. np_true_divide x 0)) a = map (map (\<lambda>x. NaN)) a"
  using assms by (auto simp: all_zero_def list_all_iff np_true_divide_def)

text \<open>
  What the call returns when the masks have entries and the batch size is not zero:
  with as many images as masks, the arguments handed to the engine; otherwise the
  ValueError of the generator.
\<close>

lemma trainSegmentation_returns:
  assumes "concat train_mask \<noteq> []" and "concat val_mask \<noteq> []" and "batch_size self \<noteq> 0"
    and "length train_data = length train_mask" and "length val_data = length val_mask"
  shows "trainSegmentation self train_data train_mask val_data val_mask path
    = Inr \<lparr>train_mask_normalized
              = map (map (\<lambda>x. np_true_divide x (Max (set (concat train_mask))))) train_mask,
           val_mask_normalized
              = map (map (\<lambda>x. np_true_divide x (Max (set (concat val_mask))))) val_mask,
           train_image_generator
              = \<lparr>sample_count = length train_data, generator_batch_size = batch_size self\<rparr>,
           val_image_generator
              = \<lparr>sample_count = length val_data, generator_batch_size = batch_size self\<rparr>,
           compile_args
              = \<lparr>loss = ''binary_crossentropy'', optimizer_lr = learning_rate self,
                 optimizer_epsilon = 1 / 100000000, metrics = [''accuracy'', ''diceCoeff'']\<rparr>,
           fit_args
              = \<lparr>epochs = no_of_epochs self,
                 steps_per_epoch = int (length train_data) div batch_size self,
                 validation_steps = int (length val_data) div batch_size self,
                 callbacks = [segmentation_checkpoint path]\<rparr>\<rparr>"
proof -
  have t: "normalize_mask train_mask
      = Inr (map (map (\<lambda>x. np_true_divide x (Max (set (concat train_mask))))) train_mask)"
    using assms(1) by (rule normalize_mask_nonempty)
  have v: "normalize_mask val_mask
      = Inr (map (map (\<lambda>x. np_true_divide x (Max (set (concat val_mask))))) val_mask)"
    using assms(2) by (rule normalize_mask_nonempty)
  show ?thesis
    using assms(3,4,5)
    by (simp only: trainSegmentation_def t v py_floordiv_def flow_def Let_def) simp
qed

lemma trainSegmentation_count_mismatch:
  assumes "concat train_mask \<noteq> []" and "concat val_mask \<noteq> []"
    and "length train_data \<noteq> length train_mask \<or> length val_data \<noteq> length val_mask"
  shows "trainSegmentation self train_data train_mask val_data val_mask path
    = Inl (ValueError ''x (images tensor) and y (labels) should have the same length'')"
proof -
  have t: "normalize_mask train_mask
      = Inr (map (map (\<lambda>x. np_true_divide x (Max (set (concat train_mask))))) train_mask)"
    using assms(1) by (rule normalize_mask_nonempty)
  have v: "normalize_mask val_mask
      = Inr (map (map (\<lambda>x. np_true_divide x (Max (set (concat val_mask))))) val_mask)"
    using assms(2) by (rule normalize_mask_nonempty)
  show ?thesis
    using assms(3)
    by (simp only: trainSegmentation_def t v flow_def Let_def) auto
qed

lemma normalize_all_zero:
  assumes "all_zero a" and "concat a \<noteq> []"
  shows "map (map (\<lambda>x. np_true_divide x (Max (set (concat a))))) a = map (map (\<lambda>x. NaN)) a"
  using all_zero_Max [OF assms] all_zero_divide [OF assms(1)] by simp

text \<open>
  C1, as stated, fails: on an all-zero training mask the call raises nothing and the
  normalized mask holds NaN in every entry.
\<close>

theorem C1_all_zero_mask_counterexample:
  "all_zero [[0, 0], [0, 0]]
   \<and> map_sum id train_mask_normalized
       (trainSegmentation (init 2 1 (1 / 10000)) [(), ()] [[0, 0], [0, 0]]
          [(), ()] [[0, 1], [1, 1]] ''model.h5'')
     = Inr [[NaN, NaN], [NaN, NaN]]"
  by (simp add: all_zero_def trainSegmentation_def normalize_mask_def np_max_def
      np_true_divide_def py_floordiv_def flow_def init_def)

text \<open>
  C1, amended: on masks with at least one entry the normalization raises nothing,
  divides every entry of a mask by the one maximum over the whole array of that call,
  and turns an all-zero mask into NaN everywhere. With a nonzero batch size and as
  many images as masks the call returns and hands these normalized masks on; with a
  different number of images the generator raises its ValueError after the
  normalization.
\<close>

theorem C1_normalization_by_batch_maximum:
  assumes "concat train_mask \<noteq> []" and "concat val_mask \<noteq> []" and "batch_size self \<noteq> 0"
  shows "normalize_mask train_mask
        = Inr (map (map (\<lambda>x. np_true_divide x (Max (set (concat train_mask))))) train_mask)
    \<and> normalize_mask val_mask
        = Inr (map (map (\<lambda>x. np_true_divide x (Max (set (concat val_mask))))) val_mask)
    \<and> (all_zero train_mask
        \<longrightarrow> normalize_mask train_mask = Inr (map (map (\<lambda>x. NaN)) train_mask))
    \<and> (all_zero val_mask
        \<longrightarrow> normalize_mask val_mask = Inr (map (map (\<lambda>x. NaN)) val_mask))
    \<and> (length train_data = length train_mask \<and> length val_data = length val_mask \<longrightarrow>
        (\<exists>call. trainSegmentation self train_data train_mask val_data val_mask path = Inr call
          \<and> train_mask_normalized call
              = map (map (\<lambda>x. np_true_divide x (Max (set (concat train_mask))))) train_mask
          \<and> val_mask_normalized call
              = map (map (\<lambda>x. np_true_divide x (Max (set (concat val_mask))))) val_mask
          \<and> (all_zero train_mask
              \<longrightarrow> train_mask_normalized call = map (map (\<lambda>x. NaN)) train_mask)
          \<and> (all_zero val_mask
              \<longrightarrow> val_mask_normalized call = map (map (\<lambda>x. NaN)) val_mask)))
    \<and> (length train_data \<noteq> length train_mask \<or> length val_data \<noteq> length val_mask \<longrightarrow>
        trainSegmentation self train_data train_mask val_data val_mask path
        = Inl (ValueError ''x (images tensor) and y (labels) should have the same length''))"
proof -
  have t: "normalize_mask train_mask
      = Inr (map (map (\<lambda>x. np_true_divide x (Max (set (concat train_mask))))) train_mask)"
    using assms(1) by (rule normalize_mask_nonempty)
  have v: "normalize_mask val_mask
      = Inr (map (map (\<lambda>x. np_true_divide x (Max (set (concat val_mask))))) val_mask)"
    using assms(2) by (rule normalize_mask_nonempty)
  have tz: "all_zero train_mask \<Longrightarrow>
      map (map (\<lambda>x. np_true_divide x (Max (set (concat train_mask))))) train_mask
      = map (map (\<lambda>x. NaN)) train_mask"
    by (rule normalize_all_zero [OF _ assms(1)])
  have vz: "all_zero val_mask \<Longrightarrow>
      map (map (\<lambda>x. np_true_divide x (Max (set (concat val_mask))))) val_mask
      = map (map (\<lambda>x. NaN)) val_mask"
    by (rule normalize_all_zero [OF _ assms(2)])
  have ok: "length train_data = length train_mask \<and> length val_data = length val_mask \<longrightarrow>
        (\<exists>call. trainSegmentation self train_data train_mask val_data val_mask path = Inr call
          \<and> train_mask_normalized call
              = map (map (\<lambda>x. np_true_divide x (Max (set (concat train_mask))))) train_mask
          \<and> val_mask_normalized call
              = map (map (\<lambda>x. np_true_divide x (Max (set (concat val_mask))))) val_mask
          \<and> (all_zero train_mask
              \<longrightarrow> train_mask_normalized call = map (map (\<lambda>x. NaN)) train_mask)
          \<and> (all_zero val_mask
              \<longrightarrow> val_mask_normalized call = map (map (\<lambda>x. NaN)) val_mask))"
  proof
    assume c: "length train_data = length train_mask \<and> length val_data = length val_mask"
    then have c1: "length train_data = length train_mask"
      and c2: "length val_data = length val_mask" by simp_all
    show "\<exists>call. trainSegmentation self train_data train_mask val_data val_mask path = Inr call
          \<and> train_mask_normalized call
              = map (map (\<lambda>x. np_true_divide x (Max (set (concat train_mask))))) train_mask
          \<and> val_mask_normalized call
              = map (map (\<lambda>x. np_true_divide x (Max (set (concat val_mask))))) val_mask
          \<and> (all_zero train_mask
              \<longrightarrow> train_mask_normalized call = map (map (\<lambda>x. NaN)) train_mask)
          \<and> (all_zero val_mask
              \<longrightarrow> val_mask_normalized call = map (map (\<lambda>x. NaN)) val_mask)"
      using tz vz
      by (simp only: trainSegmentation_returns [OF assms c1 c2]) simp
  qed
  have bad: "length train_data \<noteq> length train_mask \<or> length val_data \<noteq> length val_mask \<longrightarrow>
        trainSegmentation self train_data train_mask val_data val_mask path
        = Inl (ValueError ''x (images tensor) and y (labels) should have the same length'')"
    using trainSegmentation_count_mismatch [OF assms(1,2)] by blast
  from t v tz vz have nz: "all_zero train_mask
        \<longrightarrow> normalize_mask train_mask = Inr (map (map (\<lambda>x. NaN)) train_mask)"
    "all_zero val_mask
        \<longrightarrow> normalize_mask val_mask = Inr (map (map (\<lambda>x. NaN)) val_mask)"
    by simp_all
  from t v nz ok bad show ?thesis by blast
qed

theorem C1_normalization_witness:
  "concat [[0, 2], [1, 4 :: real]] \<noteq> [] \<and> concat [[0, 0 :: real]] \<noteq> []
   \<and> batch_size (init 2 1 (1 / 10000)) \<noteq> 0 \<and> all_zero [[0, 0]]
   \<and> length [(), ()] = length [[0, 2], [1, 4 :: real]] \<and> length [()] = length [[0, 0 :: real]]
   \<and> map_sum id train_mask_normalized
       (trainSegmentation (init 2 1 (1 / 10000)) [(), ()] [[0, 2], [1, 4]] [()] [[0, 0]] ''model.h5'')
     = Inr [[Fin 0, Fin (1 / 2)], [Fin (1 / 4), Fin 1]]
   \<and> map_sum id val_mask_normalized
       (trainSegmentation (init 2 1 (1 / 10000)) [(), ()] [[0, 2], [1, 4]] [()] [[0, 0]] ''model.h5'')
     = Inr [[NaN, NaN]]"
  using C1_normalization_by_batch_maximum [of "[[0, 2], [1, 4]]" "[[0, 0]]"
      "init 2 1 (1 / 10000)" "[(), ()]" "[()]" "''model.h5''"]
  by (auto simp: init_def all_zero_def np_true_divide_def)

section \<open>Checkpointing during trainSegmentation\<close>

lemma run_epochs_append:
  "run_epochs cfg k (xs @ ys) st = run_epochs cfg (k + length xs) ys (run_epochs cfg k xs st)"
  by (induction xs arbitrary: k st) auto

lemma monitored_snoc_old: "j < length run \<Longrightarrow> monitored cfg (run @ [e]) j = monitored cfg run j"
  by (simp add: monitored_def nth_append)

lemma monitored_snoc_new:
  "map_of logs (monitor cfg) = Some v \<Longrightarrow> monitored cfg (run @ [(logs, w)]) (length run) = v"
  by (simp add: monitored_def)

lemma exceeds_snoc_old:
  "i < length run \<Longrightarrow> exceeds_all_previous cfg (run @ [e]) i = exceeds_all_previous cfg run i"
  by (simp add: exceeds_all_previous_def list_all_iff monitored_snoc_old)

lemma exceeds_snoc_new:
  "map_of logs (monitor cfg) = Some v \<Longrightarrow>
   exceeds_all_previous cfg (run @ [(logs, w)]) (length run)
   = (\<forall>j < length run. monitored cfg run j < v)"
  by (auto simp: exceeds_all_previous_def list_all_iff monitored_snoc_old monitored_snoc_new)

lemma filter_exceeds_snoc:
  "filter (exceeds_all_previous cfg (run @ [e])) [0..<length run]
   = filter (exceeds_all_previous cfg run) [0..<length run]"
  by (rule filter_cong) (simp_all add: exceeds_snoc_old)

text \<open>
  The state of a save-best-only callback in mode max after any run: the best value is
  the maximum so far, the epochs written are those whose value exceeds every earlier
  one, and the file holds the weights of the last of them.
\<close>

lemma checkpoint_invariant:
  assumes "save_best_only cfg" and "mode cfg = ModeMax" and "all_logged cfg run"
  shows "best (run_epochs cfg 0 run (initial_checkpoint_state fs))
      = (if run = [] then None else Some (Max (monitored cfg run ` {..<length run})))
    \<and> saved_epochs (run_epochs cfg 0 run (initial_checkpoint_state fs))
      = filter (exceeds_all_previous cfg run) [0..<length run]
    \<and> files (run_epochs cfg 0 run (initial_checkpoint_state fs))
      = (if saved_epochs (run_epochs cfg 0 run (initial_checkpoint_state fs)) = [] then fs
         else fs(filepath cfg \<mapsto>
           snd (run ! last (saved_epochs (run_epochs cfg 0 run (initial_checkpoint_state fs))))))"
  using assms(3)
proof (induction run rule: rev_induct)
  case Nil
  then show ?case by (simp add: initial_checkpoint_state_def)
next
  case (snoc x run)
  obtain logs w where x: "x = (logs, w)" by (cases x)
  from snoc.prems x obtain v where v: "map_of logs (monitor cfg) = Some v"
    and al: "all_logged cfg run"
    by (auto simp: all_logged_def)
  let ?n = "length run"
  let ?st = "run_epochs cfg 0 run (initial_checkpoint_state fs)"
  let ?m = "monitored cfg run"
  note IH = snoc.IH [OF al]
  have step: "run_epochs cfg 0 (run @ [(logs, w)]) (initial_checkpoint_state fs)
      = on_epoch_end cfg ?n logs w ?st"
    by (simp add: run_epochs_append)
  have img: "monitored cfg (run @ [(logs, w)]) ` {..<Suc ?n} = insert v (?m ` {..<?n})"
    using monitored_snoc_new [OF v, of run w]
    by (auto simp: lessThan_Suc monitored_snoc_old image_iff)
  have imp: "improves ModeMax v (best ?st) = (\<forall>j < ?n. ?m j < v)"
  proof (cases "run = []")
    case True
    with IH show ?thesis by simp
  next
    case False
    then have "?m ` {..<?n} \<noteq> {}" by (simp add: lessThan_empty_iff)
    then have "(Max (?m ` {..<?n}) < v) = (\<forall>j < ?n. ?m j < v)"
      by (subst Max_less_iff) auto
    with False IH show ?thesis by simp
  qed
  have last_lt: "saved_epochs ?st \<noteq> [] \<Longrightarrow> last (saved_epochs ?st) < ?n"
  proof -
    assume "saved_epochs ?st \<noteq> []"
    then have "last (saved_epochs ?st) \<in> set (saved_epochs ?st)" by (rule last_in_set)
    with IH show ?thesis by simp
  qed
  show ?case
  proof (cases "\<forall>j < ?n. ?m j < v")
    case True
    with imp have i: "improves ModeMax v (best ?st)" by simp
    have b: "Max (insert v (?m ` {..<?n})) = v"
    proof (cases "run = []")
      case True then show ?thesis by simp
    next
      case False
      then have ne: "?m ` {..<?n} \<noteq> {}" by (simp add: lessThan_empty_iff)
      have lt: "Max (?m ` {..<?n}) < v"
        using True ne by (subst Max_less_iff) auto
      have "Max (insert v (?m ` {..<?n})) = max v (Max (?m ` {..<?n}))"
        using ne by (intro Max_insert) auto
      with lt show ?thesis by linarith
    qed
    have ex: "exceeds_all_previous cfg (run @ [(logs, w)]) ?n"
      using True exceeds_snoc_new [OF v, of run w] by simp
    show ?thesis
      unfolding x using i assms(1,2) v IH b ex
      by (auto simp: step on_epoch_end_def save_model_def img filter_exceeds_snoc)
  next
    case False
    with imp have i: "\<not> improves ModeMax v (best ?st)" by simp
    from False have ne: "run \<noteq> []" by auto
    then have ne': "?m ` {..<?n} \<noteq> {}" by (simp add: lessThan_empty_iff)
    have nlt: "\<not> Max (?m ` {..<?n}) < v"
      using False ne' by (subst Max_less_iff) auto
    have "Max (insert v (?m ` {..<?n})) = max v (Max (?m ` {..<?n}))"
      using ne' by (intro Max_insert) auto
    with nlt have b: "Max (insert v (?m ` {..<?n})) = Max (?m ` {..<?n})"
      by linarith
    have ex: "\<not> exceeds_all_previous cfg (run @ [(logs, w)]) ?n"
      using False exceeds_snoc_new [OF v, of run w] by simp
    have f: "files ?st = (if saved_epochs ?st = [] then fs
        else fs(filepath cfg \<mapsto> snd ((run @ [(logs, w)]) ! last (saved_epochs ?st))))"
    proof (cases "saved_epochs ?st = []")
      case True
      from IH have "files ?st = (if saved_epochs ?st = [] then fs
          else fs(filepath cfg \<mapsto> snd (run ! last (saved_epochs ?st))))"
        by blast
      then show ?thesis by (simp add: True)
    next
      case False
      from last_lt [OF False]
      have eq: "(run @ [(logs, w)]) ! last (saved_epochs ?st) = run ! last (saved_epochs ?st)"
        by (simp add: nth_append)
      from IH have "files ?st = (if saved_epochs ?st = [] then fs
          else fs(filepath cfg \<mapsto> snd (run ! last (saved_epochs ?st))))"
        by blast
      then show ?thesis by (simp only: eq)
    qed
    show ?thesis
      unfolding x using i assms(1,2) v IH b ex ne f
      by (simp add: step on_epoch_end_def img filter_exceeds_snoc)
  qed
qed

text \<open>
  One epoch of such a callback: after the epochs before i, epoch i writes the weights
  of epoch i to the file exactly when its value exceeds every earlier one, and changes
  nothing otherwise.
\<close>

lemma all_logged_take: "all_logged cfg run \<Longrightarrow> all_logged cfg (take i run)"
  by (auto simp: all_logged_def list_all_iff dest: in_set_takeD)

lemma monitored_take: "j < i \<Longrightarrow> monitored cfg (take i run) j = monitored cfg run j"
  by (simp add: monitored_def)

lemma improves_after_run:
  assumes "save_best_only cfg" and "mode cfg = ModeMax" and "all_logged cfg run"
  shows "improves ModeMax v (best (run_epochs cfg 0 run (initial_checkpoint_state fs)))
    = (\<forall>j < length run. monitored cfg run j < v)"
proof (cases "run = []")
  case True
  then show ?thesis by (simp add: initial_checkpoint_state_def)
next
  case False
  from checkpoint_invariant [OF assms, of fs] False
  have b: "best (run_epochs cfg 0 run (initial_checkpoint_state fs))
      = Some (Max (monitored cfg run ` {..<length run}))"
    by simp
  from False have ne: "monitored cfg run ` {..<length run} \<noteq> {}"
    by (simp add: lessThan_empty_iff)
  have "(Max (monitored cfg run ` {..<length run}) < v)
      = (\<forall>j < length run. monitored cfg run j < v)"
    using ne by (subst Max_less_iff) auto
  then show ?thesis by (simp only: b improves.simps)
qed

lemma epoch_step:
  assumes "save_best_only cfg" and "mode cfg = ModeMax" and "all_logged cfg run"
    and "i < length run"
  shows "run_epochs cfg 0 (take (Suc i) run) (initial_checkpoint_state fs)
    = (if exceeds_all_previous cfg run i
       then save_model cfg i (snd (run ! i))
              ((run_epochs cfg 0 (take i run) (initial_checkpoint_state fs))
                 \<lparr>best := Some (monitored cfg run i)\<rparr>)
       else run_epochs cfg 0 (take i run) (initial_checkpoint_state fs))"
proof -
  obtain logs w where x: "run ! i = (logs, w)" by (cases "run ! i")
  from assms(3,4) x obtain v where v: "map_of logs (monitor cfg) = Some v"
    by (force simp: all_logged_def list_all_iff dest: nth_mem)
  from x v have m: "monitored cfg run i = v" by (simp add: monitored_def)
  let ?st = "run_epochs cfg 0 (take i run) (initial_checkpoint_state fs)"
  from assms(4) have tk: "take (Suc i) run = take i run @ [(logs, w)]"
    by (simp add: take_Suc_conv_app_nth x)
  from assms(4) have len: "length (take i run) = i" by simp
  have step: "run_epochs cfg 0 (take (Suc i) run) (initial_checkpoint_state fs)
      = on_epoch_end cfg i logs w ?st"
    by (simp only: tk run_epochs_append len) simp
  have "improves ModeMax v (best ?st) = (\<forall>j < i. monitored cfg (take i run) j < v)"
    using improves_after_run [OF assms(1,2) all_logged_take [OF assms(3)], of v i fs]
    by (simp only: len)
  also have "\<dots> = (\<forall>j < i. monitored cfg run j < v)"
    by (simp add: monitored_take)
  also have "\<dots> = exceeds_all_previous cfg run i"
    by (auto simp: exceeds_all_previous_def list_all_iff m)
  finally have imp: "improves ModeMax v (best ?st) = exceeds_all_previous cfg run i" .
  show ?thesis
    using assms(1,2) v imp
    by (simp add: step on_epoch_end_def x m)
qed

text \<open>
  C2: trainSegmentation hands fit one checkpoint callback, monitoring val_loss in mode
  max (higher is better). In a run whose epochs all log val_loss (a finite number),
  epoch i overwrites the file at model_file_path with the weights of epoch i exactly
  when the val_loss of epoch i is strictly greater than that of every earlier epoch,
  and leaves every file as it was otherwise; after the run the file holds the weights
  of the last such epoch, and no other file is touched.
\<close>

theorem C2_checkpoint_written_iff_improves:
  assumes "all_logged (segmentation_checkpoint path) run" and "i < length run"
    and "trainSegmentation self train_data train_mask val_data val_mask path = Inr call"
  shows "callbacks (fit_args call) = [segmentation_checkpoint path]
    \<and> monitor (segmentation_checkpoint path) = ''val_loss''
    \<and> mode (segmentation_checkpoint path) = ModeMax
    \<and> (i \<in> set (saved_epochs (run_epochs (segmentation_checkpoint path) 0 run
                                (initial_checkpoint_state fs)))
        \<longleftrightarrow> exceeds_all_previous (segmentation_checkpoint path) run i)
    \<and> (\<forall>p. p \<noteq> path \<longrightarrow>
          files (run_epochs (segmentation_checkpoint path) 0 run (initial_checkpoint_state fs)) p
          = fs p)
    \<and> (exceeds_all_previous (segmentation_checkpoint path) run i \<longrightarrow>
          files (run_epochs (segmentation_checkpoint path) 0 (take (Suc i) run)
                   (initial_checkpoint_state fs))
          = (files (run_epochs (segmentation_checkpoint path) 0 (take i run)
                      (initial_checkpoint_state fs)))(path \<mapsto> snd (run ! i))
          \<and> saved_epochs (run_epochs (segmentation_checkpoint path) 0 (take (Suc i) run)
                   (initial_checkpoint_state fs))
            = saved_epochs (run_epochs (segmentation_checkpoint path) 0 (take i run)
                   (initial_checkpoint_state fs)) @ [i])
    \<and> (\<not> exceeds_all_previous (segmentation_checkpoint path) run i \<longrightarrow>
          run_epochs (segmentation_checkpoint path) 0 (take (Suc i) run)
            (initial_checkpoint_state fs)
          = run_epochs (segmentation_checkpoint path) 0 (take i run)
              (initial_checkpoint_state fs))
    \<and> files (run_epochs (segmentation_checkpoint path) 0 run (initial_checkpoint_state fs)) path
        = (if saved_epochs (run_epochs (segmentation_checkpoint path) 0 run
                              (initial_checkpoint_state fs)) = []
           then fs path
           else Some (snd (run ! last (saved_epochs
                  (run_epochs (segmentation_checkpoint path) 0 run
                     (initial_checkpoint_state fs))))))"
proof -
  let ?cfg = "segmentation_checkpoint path"
  have c: "save_best_only ?cfg" "mode ?cfg = ModeMax" "filepath ?cfg = path"
    by (simp_all add: segmentation_checkpoint_def)
  note inv = checkpoint_invariant [OF c(1,2) assms(1), of fs]
  note stp = epoch_step [OF c(1,2) assms(1,2), of fs]
  from assms(3) have cb: "callbacks (fit_args call) = [?cfg]"
    by (auto simp: trainSegmentation_def Let_def split: sum.splits)
  from inv assms(2) have w: "i \<in> set (saved_epochs (run_epochs ?cfg 0 run
      (initial_checkpoint_state fs))) \<longleftrightarrow> exceeds_all_previous ?cfg run i"
    by simp
  from inv c(3) have fr: "\<forall>p. p \<noteq> path \<longrightarrow>
      files (run_epochs ?cfg 0 run (initial_checkpoint_state fs)) p = fs p"
    by (auto split: if_splits)
  have wr: "exceeds_all_previous ?cfg run i \<longrightarrow>
      files (run_epochs ?cfg 0 (take (Suc i) run) (initial_checkpoint_state fs))
      = (files (run_epochs ?cfg 0 (take i run) (initial_checkpoint_state fs)))
          (path \<mapsto> snd (run ! i))
      \<and> saved_epochs (run_epochs ?cfg 0 (take (Suc i) run) (initial_checkpoint_state fs))
        = saved_epochs (run_epochs ?cfg 0 (take i run) (initial_checkpoint_state fs)) @ [i]"
    by (simp add: stp save_model_def c(3))
  have nw: "\<not> exceeds_all_previous ?cfg run i \<longrightarrow>
      run_epochs ?cfg 0 (take (Suc i) run) (initial_checkpoint_state fs)
      = run_epochs ?cfg 0 (take i run) (initial_checkpoint_state fs)"
    by (simp add: stp)
  from inv c(3) have fin: "files (run_epochs ?cfg 0 run (initial_checkpoint_state fs)) path
      = (if saved_epochs (run_epochs ?cfg 0 run (initial_checkpoint_state fs)) = []
         then fs path
         else Some (snd (run ! last (saved_epochs
                (run_epochs ?cfg 0 run (initial_checkpoint_state fs))))))"
    by (auto split: if_splits)
  have m: "monitor ?cfg = ''val_loss''" by (simp add: segmentation_checkpoint_def)
  from cb m c(2) w fr wr nw fin show ?thesis by blast
qed

theorem C2_checkpoint_witness:
  "all_logged (segmentation_checkpoint ''model.h5'')
     [([(''val_loss'', 3)], ''w0''), ([(''val_loss'', 2)], ''w1''), ([(''val_loss'', 5)], ''w2'')]
   \<and> saved_epochs (run_epochs (segmentation_checkpoint ''model.h5'') 0
        [([(''val_loss'', 3)], ''w0''), ([(''val_loss'', 2)], ''w1''), ([(''val_loss'', 5)], ''w2'')]
        (initial_checkpoint_state Map.empty)) = [0, 2]
   \<and> files (run_epochs (segmentation_checkpoint ''model.h5'') 0
        [([(''val_loss'', 3)], ''w0''), ([(''val_loss'', 2)], ''w1''), ([(''val_loss'', 5)], ''w2'')]
        (initial_checkpoint_state Map.empty)) ''model.h5'' = Some ''w2''
   \<and> files (run_epochs (segmentation_checkpoint ''model.h5'') 0
        [([(''val_loss'', 3)], ''w0''), ([(''val_loss'', 2)], ''w1'')]
        (initial_checkpoint_state Map.empty)) ''model.h5'' = Some ''w0''
   \<and> exceeds_all_previous (segmentation_checkpoint ''model.h5'')
        [([(''val_loss'', 3)], ''w0''), ([(''val_loss'', 2)], ''w1''), ([(''val_loss'', 5)], ''w2'')] 2
   \<and> \<not> exceeds_all_previous (segmentation_checkpoint ''model.h5'')
        [([(''val_loss'', 3)], ''w0''), ([(''val_loss'', 2)], ''w1''), ([(''val_loss'', 5)], ''w2'')] 1
   \<and> length [(), ()] = length [[0, 1], [1, 1 :: real]]
   \<and> map_sum id (callbacks \<circ> fit_args)
        (trainSegmentation (init 2 3 (1 / 10000)) [(), ()] [[0, 1], [1, 1]] [(), ()]
           [[1, 1], [0, 0]] ''model.h5'')
      = Inr [segmentation_checkpoint ''model.h5'']"
proof -
  let ?run = "[([(''val_loss'', 3 :: real)], ''w0''), ([(''val_loss'', 2)], ''w1''),
              ([(''val_loss'', 5)], ''w2'')]"
  let ?cfg = "segmentation_checkpoint ''model.h5''"
  have al: "all_logged ?cfg ?run"
    by (simp add: all_logged_def segmentation_checkpoint_def)
  obtain call where call: "trainSegmentation (init 2 3 (1 / 10000)) [(), ()] [[0, 1], [1, 1]]
      [(), ()] [[1, 1], [0, 0]] ''model.h5'' = Inr call"
    by (simp add: trainSegmentation_def normalize_mask_def np_max_def py_floordiv_def
        flow_def init_def)
  have s: "saved_epochs (run_epochs ?cfg 0 ?run (initial_checkpoint_state Map.empty)) = [0, 2]"
    by (simp add: segmentation_checkpoint_def initial_checkpoint_state_def on_epoch_end_def
        save_model_def)
  note thm2 = C2_checkpoint_written_iff_improves [OF al _ call, of 2 Map.empty]
  note thm1 = C2_checkpoint_written_iff_improves [OF al _ call, of 1 Map.empty]
  have e2: "exceeds_all_previous ?cfg ?run 2" using thm2 s by simp
  have e1: "\<not> exceeds_all_previous ?cfg ?run 1" using thm1 s by simp
  have cb: "callbacks (fit_args call) = [?cfg]" using thm2 by simp
  have f2: "files (run_epochs ?cfg 0 ?run (initial_checkpoint_state Map.empty)) ''model.h5''
      = Some ''w2''"
    using thm2 s by simp
  have f1: "files (run_epochs ?cfg 0 (take 2 ?run) (initial_checkpoint_state Map.empty))
      ''model.h5'' = Some ''w0''"
    by (simp add: segmentation_checkpoint_def initial_checkpoint_state_def on_epoch_end_def
        save_model_def)
  from al s e2 e1 cb call f2 f1 show ?thesis by simp
qed

section \<open>The learning rate of the three pipelines\<close>

text \<open>
  C3: a trainer constructed with the learning rate 1/100 compiles the panel classifier
  with the learning rate 1/10000; the constructed rate is not used there.
\<close>

theorem C3_classifier_ignores_learning_rate:
  "learning_rate (init 32 10 (1 / 100)) = 1 / 100
   \<and> map_sum id (optimizer_lr \<circ> clf_compile_args)
       (trainPanelClassifier (init 32 10 (1 / 100)) [0, 1, 0] [1] ''model.h5'')
     = Inr (1 / 10000)"
  by (simp add: init_def trainPanelClassifier_def py_floordiv_def)

text \<open>
  The segmentation and the detection pipeline pass the constructed rate on, the panel
  classifier passes a constant.
\<close>

lemma learning_rate_segmentation:
  "trainSegmentation self train_data train_mask val_data val_mask path = Inr call \<Longrightarrow>
   optimizer_lr (compile_args call) = learning_rate self"
  by (auto simp: trainSegmentation_def Let_def split: sum.splits)

lemma learning_rate_classifier:
  "trainPanelClassifier self train_labels val_labels path = Inr call \<Longrightarrow>
   optimizer_lr (clf_compile_args call) = 1 / 10000"
  by (auto simp: trainPanelClassifier_def Let_def split: sum.splits)

lemma learning_rate_detection:
  "trainMountingConfigClassifier self train_path val_path fs g = Inr call \<Longrightarrow>
   det_learning_rate call = learning_rate self \<and> det_epochs call = no_of_epochs self
   \<and> loader_batch_size call = batch_size self"
  by (auto simp: trainMountingConfigClassifier_def split: sum.splits prod.splits)

section \<open>Steps per epoch\<close>

text \<open>
  C8: trainSegmentation (given as many images as masks, so that the generators are
  made) and trainPanelClassifier pass to fit, as steps per epoch and as validation
  steps, the floor division of the number of samples by the batch size; the steps cover
  the samples but for the remainder of the division.
\<close>

theorem C8_steps_are_floor_division:
  assumes "batch_size self \<noteq> 0" and "concat train_mask \<noteq> []" and "concat val_mask \<noteq> []"
    and "length train_data = length train_mask" and "length val_data = length val_mask"
  shows "\<exists>s c. trainSegmentation self train_data train_mask val_data val_mask path = Inr s
    \<and> trainPanelClassifier self train_labels val_labels path' = Inr c
    \<and> steps_per_epoch (fit_args s) = int (length train_data) div batch_size self
    \<and> validation_steps (fit_args s) = int (length val_data) div batch_size self
    \<and> steps_per_epoch (clf_fit_args c) = int (length train_labels) div batch_size self
    \<and> validation_steps (clf_fit_args c) = int (length val_labels) div batch_size self
    \<and> steps_per_epoch (fit_args s) * batch_size self
        = int (length train_data) - int (length train_data) mod batch_size self
    \<and> steps_per_epoch (clf_fit_args c) * batch_size self
        = int (length train_labels) - int (length train_labels) mod batch_size self"
  using assms(1)
  by (simp only: trainSegmentation_returns [OF assms(2,3,1,4,5)] trainPanelClassifier_def
      py_floordiv_def Let_def)
    (simp add: algebra_simps minus_mod_eq_mult_div)

theorem C8_steps_witness:
  "batch_size (init 32 1 (1 / 10000)) \<noteq> 0
   \<and> length (replicate 105 ()) = length (replicate 105 [1 :: real])
   \<and> length (replicate 64 ()) = length (replicate 64 [1 :: real])
   \<and> length (replicate 105 ()) = 105
   \<and> map_sum id (steps_per_epoch \<circ> fit_args)
       (trainSegmentation (init 32 1 (1 / 10000)) (replicate 105 ()) (replicate 105 [1])
          (replicate 64 ()) (replicate 64 [1]) ''model.h5'') = Inr 3
   \<and> map_sum id (validation_steps \<circ> fit_args)
       (trainSegmentation (init 32 1 (1 / 10000)) (replicate 105 ()) (replicate 105 [1])
          (replicate 64 ()) (replicate 64 [1]) ''model.h5'') = Inr 2
   \<and> map_sum id (steps_per_epoch \<circ> clf_fit_args)
       (trainPanelClassifier (init 32 1 (1 / 10000)) (replicate 105 0) (replicate 64 0)
          ''model.h5'') = Inr 3"
proof -
  have b: "batch_size (init 32 1 (1 / 10000)) \<noteq> 0" by (simp add: init_def)
  have t: "concat (replicate 105 [1 :: real]) \<noteq> []" by simp
  have v: "concat (replicate 64 [1 :: real]) \<noteq> []" by simp
  have lt: "length (replicate 105 ()) = length (replicate 105 [1 :: real])" by simp
  have lv: "length (replicate 64 ()) = length (replicate 64 [1 :: real])" by simp
  from C8_steps_are_floor_division [OF b t v lt lv, of "''model.h5''" "replicate 105 0"
      "replicate 64 0" "''model.h5''"]
  obtain s c where r:
    "trainSegmentation (init 32 1 (1 / 10000)) (replicate 105 ()) (replicate 105 [1])
       (replicate 64 ()) (replicate 64 [1]) ''model.h5'' = Inr s"
    "trainPanelClassifier (init 32 1 (1 / 10000)) (replicate 105 0) (replicate 64 0)
       ''model.h5'' = Inr c"
    "steps_per_epoch (fit_args s)
       = int (length (replicate 105 ())) div batch_size (init 32 1 (1 / 10000))"
    "validation_steps (fit_args s)
       = int (length (replicate 64 ())) div batch_size (init 32 1 (1 / 10000))"
    "steps_per_epoch (clf_fit_args c)
       = int (length (replicate 105 (0 :: nat))) div batch_size (init 32 1 (1 / 10000))"
    by blast
  from r(3) have s3: "steps_per_epoch (fit_args s) = 3" by (simp add: init_def)
  from r(4) have s2: "validation_steps (fit_args s) = 2" by (simp add: init_def)
  from r(5) have c3: "steps_per_epoch (clf_fit_args c) = 3" by (simp add: init_def)
  from b r(1,2) s3 s2 c3 show ?thesis by simp
qed

section \<open>trainingStatistics on incomplete histories\<close>

lemma no_validation_keys_lookup:
  "no_validation_keys h \<Longrightarrow> take 4 k = ''val_'' \<Longrightarrow> map_of h k = None"
  by (induction h) (auto simp: no_validation_keys_def)

lemma artifacts_append: "artifacts (xs @ ys) = artifacts xs @ artifacts ys"
  by (induction xs rule: artifacts.induct) simp_all

lemma artifacts_curve: "artifacts (curve s name) = [name]"
  by (simp add: curve_def)

lemma artifacts_combined: "artifacts (combined cs name) = [name]"
  by (induction cs) (auto simp: combined_def)

text \<open>
  C9: on a history with the training keys (accuracy, loss, and diceCoeff when the mode
  is 1) and no key starting with val_, trainingStatistics raises nothing, prints the
  warning, and saves the training artifacts only.
\<close>

theorem C9_history_without_validation_keys:
  assumes "has_key h ''accuracy''" and "has_key h ''loss''"
    and "md = 1 \<longrightarrow> has_key h ''diceCoeff''" and "no_validation_keys h"
  shows "snd (trainingStatistics h md) = None
    \<and> Print ''No validation metrics available.'' \<in> set (fst (trainingStatistics h md))
    \<and> artifacts (fst (trainingStatistics h md))
        = (if md = 1 then [''Train_dice_coef''] else [])
          @ [''Train_loss'', ''Train_accuracy'', ''Training statistics'']"
proof -
  have v: "validation_lookup h md = Inl (KeyError ''val_accuracy'')"
    using no_validation_keys_lookup [OF assms(4), of "''val_accuracy''"]
    by (simp add: validation_lookup_def getitem_def)
  from assms(1,2) obtain a l where al: "map_of h ''accuracy'' = Some a" "map_of h ''loss'' = Some l"
    by (auto simp: has_key_def)
  show ?thesis
  proof (cases "md = 1")
    case True
    with assms(3) obtain d where "map_of h ''diceCoeff'' = Some d"
      by (auto simp: has_key_def)
    with True al v show ?thesis
      by (simp add: trainingStatistics_def getitem_def artifacts_append artifacts_curve
          artifacts_combined)
  next
    case False
    with al v show ?thesis
      by (simp add: trainingStatistics_def getitem_def artifacts_append artifacts_curve
          artifacts_combined)
  qed
qed

theorem C9_history_witness:
  "has_key [(''accuracy'', [1 / 2]), (''loss'', [2]), (''diceCoeff'', [1 / 4])] ''accuracy''
   \<and> has_key [(''accuracy'', [1 / 2]), (''loss'', [2]), (''diceCoeff'', [1 / 4])] ''loss''
   \<and> has_key [(''accuracy'', [1 / 2]), (''loss'', [2]), (''diceCoeff'', [1 / 4])] ''diceCoeff''
   \<and> no_validation_keys [(''accuracy'', [1 / 2]), (''loss'', [2]), (''diceCoeff'', [1 / 4])]
   \<and> snd (trainingStatistics [(''accuracy'', [1 / 2]), (''loss'', [2]), (''diceCoeff'', [1 / 4])] 1)
      = None
   \<and> artifacts (fst (trainingStatistics
        [(''accuracy'', [1 / 2]), (''loss'', [2]), (''diceCoeff'', [1 / 4])] 1))
      = [''Train_dice_coef'', ''Train_loss'', ''Train_accuracy'', ''Training statistics'']"
  using C9_history_without_validation_keys
    [of "[(''accuracy'', [1 / 2]), (''loss'', [2]), (''diceCoeff'', [1 / 4])]" 1]
  by (simp add: has_key_def no_validation_keys_def)

text \<open>
  C10: with mode 1 and a history without the key diceCoeff, trainingStatistics raises
  a KeyError before any event of the plotting library; when accuracy and loss are
  present the missing key reported is diceCoeff.
\<close>

theorem C10_missing_diceCoeff_raises:
  assumes "\<not> has_key h ''diceCoeff''"
  shows "(\<exists>k. trainingStatistics h 1 = ([], Some (KeyError k)))
    \<and> (has_key h ''accuracy'' \<and> has_key h ''loss''
        \<longrightarrow> trainingStatistics h 1 = ([], Some (KeyError ''diceCoeff'')))"
  using assms
  by (auto simp: trainingStatistics_def getitem_def has_key_def split: option.splits)

theorem C10_missing_diceCoeff_witness:
  "\<not> has_key [(''accuracy'', [1 / 2]), (''loss'', [2])] ''diceCoeff''
   \<and> has_key [(''accuracy'', [1 / 2]), (''loss'', [2])] ''accuracy''
   \<and> has_key [(''accuracy'', [1 / 2]), (''loss'', [2])] ''loss''
   \<and> trainingStatistics [(''accuracy'', [1 / 2]), (''loss'', [2])] 1
      = ([], Some (KeyError ''diceCoeff''))"
  using C10_missing_diceCoeff_raises [of "[(''accuracy'', [1 / 2]), (''loss'', [2])]"]
  by (simp add: has_key_def)

section \<open>The oversampling of trainMountingConfigClassifier\<close>

text \<open>A draw of \<open>choices\<close> is always an index of the population.\<close>

lemma floor_index:
  assumes "0 \<le> u" and "u < 1" and "0 < n"
  shows "0 \<le> \<lfloor>u * real n\<rfloor> \<and> \<lfloor>u * real n\<rfloor> < int n"
proof -
  from assms(1) have "0 \<le> u * real n" by simp
  then have lo: "0 \<le> \<lfloor>u * real n\<rfloor>" by simp
  from assms(2,3) have "u * real n < real n" by simp
  then have "\<lfloor>u * real n\<rfloor> < int n" by (simp add: floor_less_iff)
  with lo show ?thesis by simp
qed

lemma py_getitem_in_range:
  "0 \<le> j \<Longrightarrow> j < int (length xs) \<Longrightarrow> py_getitem xs j = Inr (xs ! nat j)"
  by (simp add: py_getitem_def Let_def)

lemma nth_nat_mem: "0 \<le> j \<Longrightarrow> j < int (length xs) \<Longrightarrow> xs ! nat j \<in> set xs"
  by (simp add: nat_less_iff)

lemma map_constant: "\<forall>i \<in> set xs. f i = c \<Longrightarrow> map f xs = replicate (length xs) c"
  by (induction xs) simp_all

lemma uniform_stl: "uniform g \<Longrightarrow> uniform (stl g)"
  by (auto simp: uniform_def dest: stl_sset)

lemma uniform_shd: "uniform g \<Longrightarrow> 0 \<le> shd g \<and> shd g < 1"
  by (simp add: uniform_def shd_sset)

lemma choices_total:
  assumes "population \<noteq> []"
  shows "uniform g \<Longrightarrow>
    \<exists>xs g'. choices population k g = Inr (xs, g') \<and> length xs = k
      \<and> set xs \<subseteq> set population \<and> uniform g'"
proof (induction k arbitrary: g)
  case 0
  then show ?case by simp
next
  case (Suc k)
  let ?j = "\<lfloor>shd g * real (length population)\<rfloor>"
  from assms have n: "0 < length population" by simp
  from uniform_shd [OF Suc.prems] n have j: "0 \<le> ?j" "?j < int (length population)"
    using floor_index [of "shd g" "length population"] by simp_all
  then have get: "py_getitem population ?j = Inr (population ! nat ?j)"
    by (rule py_getitem_in_range)
  from j have mem: "population ! nat ?j \<in> set population" by (rule nth_nat_mem)
  from Suc.IH [OF uniform_stl [OF Suc.prems]]
  obtain xs g' where r: "choices population k (stl g) = Inr (xs, g')" "length xs = k"
    "set xs \<subseteq> set population" "uniform g'"
    by blast
  from get r mem show ?case by (simp add: random_def)
qed

lemma append_duplicates_rows:
  "\<forall>i \<in> set idxs. i < length td \<Longrightarrow>
   append_duplicates td idxs acc = Inr (acc @ map ((!) td) idxs)"
  by (induction idxs arbitrary: acc) (simp_all add: loc_def)

lemma set_class_index_list:
  "set (class_index_list td c) = {i. i < length td \<and> class_label (td ! i) = c}"
  by (auto simp: class_index_list_def)

lemma class_index_list_nonempty: "c \<in> classes td \<Longrightarrow> class_index_list td c \<noteq> []"
proof -
  assume "c \<in> classes td"
  then obtain i where "i < length td" "class_label (td ! i) = c"
    by (auto simp: classes_def in_set_conv_nth)
  then have "i \<in> set (class_index_list td c)" by (simp add: set_class_index_list)
  then show ?thesis by auto
qed

text \<open>
  The loop over the classes never raises: every class of \<open>class_count\<close> occurs in
  the table, and every drawn index is a row of that class. It appends to the table,
  class by class, as many rows of the class as the class is short of the maximum.
\<close>

lemma resample_classes_total:
  "\<forall>(c, n) \<in> set cc. c \<in> classes td \<Longrightarrow> uniform g \<Longrightarrow>
   \<exists>added g'. resample_classes td cc0 cc acc g = Inr (acc @ added, g')
     \<and> map class_label added = appended_labels (series_max cc0) cc
     \<and> set added \<subseteq> set td \<and> uniform g'"
proof (induction cc arbitrary: acc g)
  case Nil
  then show ?case by simp
next
  case (Cons x cc)
  obtain c n where x: "x = (c, n)" by (cases x)
  let ?k = "series_max cc0 - n"
  from Cons.prems(1) x have c: "c \<in> classes td" and rest: "\<forall>(c, n) \<in> set cc. c \<in> classes td"
    by auto
  from choices_total [OF class_index_list_nonempty [OF c] Cons.prems(2), of ?k]
  obtain idxs g1 where ch: "choices (class_index_list td c) ?k g = Inr (idxs, g1)"
    "length idxs = ?k" "set idxs \<subseteq> set (class_index_list td c)" "uniform g1"
    by blast
  from ch(3) have ok: "\<forall>i \<in> set idxs. i < length td \<and> class_label (td ! i) = c"
    by (auto simp: set_class_index_list)
  then have ap: "append_duplicates td idxs acc = Inr (acc @ map ((!) td) idxs)"
    by (simp add: append_duplicates_rows)
  from Cons.IH [OF rest ch(4), of "acc @ map ((!) td) idxs"]
  obtain added g' where r: "resample_classes td cc0 cc (acc @ map ((!) td) idxs) g1
      = Inr ((acc @ map ((!) td) idxs) @ added, g')"
    "map class_label added = appended_labels (series_max cc0) cc"
    "set added \<subseteq> set td" "uniform g'"
    by blast
  have "map (\<lambda>i. class_label (td ! i)) idxs = replicate (length idxs) c"
    using ok by (intro map_constant) simp
  then have lab: "map class_label (map ((!) td) idxs) = replicate ?k c"
    using ch(2) by (simp add: comp_def)
  have sub: "set (map ((!) td) idxs) \<subseteq> set td" using ok by auto
  show ?case
    apply (rule exI [of _ "map ((!) td) idxs @ added"])
    apply (rule exI [of _ g'])
    using ch(1) ap r lab sub by (simp add: x)
qed


lemma classes_value_counts: "\<forall>(c, n) \<in> set (value_counts (map class_label t)). c \<in> classes t"
  by (auto simp: value_counts_def classes_def)

lemma oversample_total:
  assumes "uniform g"
  shows "\<exists>added g'. oversample t g = Inr (t @ added, g')
    \<and> map class_label added
        = appended_labels (series_max (value_counts (map class_label t)))
            (value_counts (map class_label t))
    \<and> set added \<subseteq> set t \<and> uniform g'"
  using resample_classes_total [OF classes_value_counts assms, of t _ t]
  by (simp add: oversample_def Let_def)

lemma value_counts_set: "set (value_counts cs) = (\<lambda>c. (c, count_list cs c)) ` set cs"
  by (simp add: value_counts_def)

lemma value_counts_distinct: "distinct (map fst (value_counts cs))"
proof -
  have "distinct (map fst (map (\<lambda>c. (c, count_list cs c)) (remdups cs)))"
    by (simp add: comp_def)
  then have "distinct (map (\<lambda>c. (c, count_list cs c)) (remdups cs))"
    and "inj_on fst (set (map (\<lambda>c. (c, count_list cs c)) (remdups cs)))"
    by (simp_all only: distinct_map)
  then show ?thesis
    by (simp only: value_counts_def distinct_map distinct_sort set_sort)
qed

lemma class_rows_count: "class_rows c t = count_list (map class_label t) c"
  by (induction t) (simp_all add: class_rows_def)

lemma class_rows_append: "class_rows c (t @ u) = class_rows c t + class_rows c u"
  by (simp add: class_rows_def)

lemma class_rows_labels:
  "class_rows c t = length (filter (\<lambda>x. x = c) (map class_label t))"
  by (induction t) (simp_all add: class_rows_def)

lemma count_appended_absent:
  "c \<notin> fst ` set cc \<Longrightarrow> filter (\<lambda>x. x = c) (appended_labels mx cc) = []"
  by (induction mx cc rule: appended_labels.induct) auto

lemma count_appended_labels:
  "distinct (map fst cc) \<Longrightarrow> (c, n) \<in> set cc \<Longrightarrow>
   length (filter (\<lambda>x. x = c) (appended_labels mx cc)) = mx - n"
proof (induction mx cc rule: appended_labels.induct)
  case (1 mx)
  then show ?case by simp
next
  case (2 mx c' n' rest)
  show ?case
  proof (cases "c' = c")
    case True
    with "2.prems" have "n' = n" and "c \<notin> fst ` set rest" by (auto simp: image_iff)
    with True show ?thesis by (simp add: count_appended_absent)
  next
    case False
    with "2.prems" have "(c, n) \<in> set rest" and "distinct (map fst rest)" by auto
    with "2.IH" False show ?thesis by simp
  qed
qed

lemma length_appended_labels:
  "length (appended_labels mx cc) = sum_list (map (\<lambda>(c, n). mx - n) cc)"
  by (induction mx cc rule: appended_labels.induct) simp_all

lemma series_max_Max: "cc \<noteq> [] \<Longrightarrow> series_max cc = Max (snd ` set cc)"
proof -
  assume ne: "cc \<noteq> []"
  have "series_max cc = Max (set (0 # map snd cc))"
    by (simp only: series_max_def Max.set_eq_fold)
  also have "\<dots> = Max (insert 0 (snd ` set cc))" by simp
  also have "\<dots> = max 0 (Max (snd ` set cc))"
    using ne by (intro Max_insert) auto
  finally show ?thesis by simp
qed

lemma series_max_value_counts:
  assumes "t \<noteq> []"
  shows "series_max (value_counts (map class_label t))
    = Max ((\<lambda>c. class_rows c t) ` classes t)"
proof -
  let ?cs = "map class_label t"
  from assms have "set (value_counts ?cs) \<noteq> {}" by (simp add: value_counts_set)
  then have "value_counts ?cs \<noteq> []" by auto
  then have "series_max (value_counts ?cs) = Max (snd ` set (value_counts ?cs))"
    by (rule series_max_Max)
  also have "snd ` set (value_counts ?cs) = (\<lambda>c. class_rows c t) ` classes t"
    by (auto simp: value_counts_set classes_def class_rows_count image_iff)
  finally show ?thesis .
qed

lemma sum_value_counts:
  "sum_list (map (\<lambda>(c, n). mx - n) (value_counts (map class_label t)))
   = (\<Sum>c \<in> classes t. mx - class_rows c t)"
proof -
  let ?cs = "map class_label t"
  let ?h = "\<lambda>c. (c, count_list ?cs c)"
  have d: "distinct (value_counts ?cs)"
    using value_counts_distinct [of ?cs] by (simp only: distinct_map)
  have inj: "inj_on ?h (set ?cs)" by (rule inj_onI) simp
  have "sum_list (map (\<lambda>(c, n). mx - n) (value_counts ?cs))
      = sum (\<lambda>(c, n). mx - n) (set (value_counts ?cs))"
    using d by (rule sum_list_distinct_conv_sum_set)
  also have "\<dots> = sum (\<lambda>(c, n). mx - n) (?h ` set ?cs)"
    by (simp only: value_counts_set)
  also have "\<dots> = sum ((\<lambda>(c, n). mx - n) \<circ> ?h) (set ?cs)"
    using inj by (rule sum.reindex)
  also have "\<dots> = (\<Sum>c \<in> classes t. mx - class_rows c t)"
    by (simp add: classes_def class_rows_count comp_def)
  finally show ?thesis .
qed

text \<open>
  C4: for every annotation table and every random source, the oversampling returns
  the table followed by copies of its own rows; every class then has as many rows as
  the largest class of the table had, and the number of rows has grown by the sum,
  over the classes, of what each class was short of that maximum.
\<close>

theorem C4_oversampling_balances:
  assumes "uniform g"
  shows "\<exists>added g'. oversample t g = Inr (t @ added, g')
    \<and> set added \<subseteq> set t
    \<and> (\<forall>c \<in> classes t.
          class_rows c (t @ added) = Max ((\<lambda>c. class_rows c t) ` classes t))
    \<and> length (t @ added)
        = length t + (\<Sum>c \<in> classes t. Max ((\<lambda>c. class_rows c t) ` classes t) - class_rows c t)"
proof (cases "t = []")
  case True
  then show ?thesis by (simp add: oversample_def value_counts_def classes_def)
next
  case False
  let ?cc = "value_counts (map class_label t)"
  let ?mx = "Max ((\<lambda>c. class_rows c t) ` classes t)"
  have mx: "series_max ?cc = ?mx" using False by (rule series_max_value_counts)
  from oversample_total [OF assms, of t]
  obtain added g' where r: "oversample t g = Inr (t @ added, g')"
    "map class_label added = appended_labels (series_max ?cc) ?cc"
    "set added \<subseteq> set t"
    by blast
  have bal: "class_rows c (t @ added) = ?mx" if c: "c \<in> classes t" for c
  proof -
    from c have m: "(c, class_rows c t) \<in> set ?cc"
      by (auto simp: value_counts_set classes_def class_rows_count)
    have "class_rows c added = ?mx - class_rows c t"
      using count_appended_labels [OF value_counts_distinct m, of ?mx]
      by (simp add: class_rows_labels [of c added] r(2) mx)
    moreover have "class_rows c t \<le> ?mx"
      using c by (intro Max_ge) (auto simp: classes_def)
    ultimately show ?thesis by (simp add: class_rows_append)
  qed
  have len: "length added = (\<Sum>c \<in> classes t. ?mx - class_rows c t)"
  proof -
    have "length added = length (map class_label added)" by simp
    also have "\<dots> = sum_list (map (\<lambda>(c, n). ?mx - n) ?cc)"
      by (simp only: r(2) mx length_appended_labels)
    finally show ?thesis by (simp only: sum_value_counts)
  qed
  from r(1,3) bal len show ?thesis by auto
qed

theorem C4_oversampling_witness:
  "uniform (sconst (1 / 2))
   \<and> map_sum id fst
       (oversample
          [\<lparr>filename = ''1.png'', class_label = ''ground-fixed'', bbox = (0, 0, 9, 9)\<rparr>,
           \<lparr>filename = ''2.png'', class_label = ''ground-fixed'', bbox = (1, 1, 5, 5)\<rparr>,
           \<lparr>filename = ''3.png'', class_label = ''carport-fixed'', bbox = (2, 2, 7, 7)\<rparr>]
          (sconst (1 / 2)))
     = Inr
          [\<lparr>filename = ''1.png'', class_label = ''ground-fixed'', bbox = (0, 0, 9, 9)\<rparr>,
           \<lparr>filename = ''2.png'', class_label = ''ground-fixed'', bbox = (1, 1, 5, 5)\<rparr>,
           \<lparr>filename = ''3.png'', class_label = ''carport-fixed'', bbox = (2, 2, 7, 7)\<rparr>,
           \<lparr>filename = ''3.png'', class_label = ''carport-fixed'', bbox = (2, 2, 7, 7)\<rparr>]"
proof -
  let ?t = "[\<lparr>filename = ''1.png'', class_label = ''ground-fixed'', bbox = (0, 0, 9, 9)\<rparr>,
           \<lparr>filename = ''2.png'', class_label = ''ground-fixed'', bbox = (1, 1, 5, 5)\<rparr>,
           \<lparr>filename = ''3.png'', class_label = ''carport-fixed'', bbox = (2 :: int, 2 :: int, 7 :: int, 7 :: int)\<rparr>]"
  have u: "uniform (sconst (1 / 2))" by (simp add: uniform_def)
  from C4_oversampling_balances [OF u, of ?t]
  obtain added g' where r: "oversample ?t (sconst (1 / 2)) = Inr (?t @ added, g')"
    "set added \<subseteq> set ?t"
    "\<forall>c \<in> classes ?t. class_rows c (?t @ added) = Max ((\<lambda>c. class_rows c ?t) ` classes ?t)"
    "length (?t @ added)
      = length ?t + (\<Sum>c \<in> classes ?t. Max ((\<lambda>c. class_rows c ?t) ` classes ?t) - class_rows c ?t)"
    by blast
  have mx: "Max ((\<lambda>c. class_rows c ?t) ` classes ?t) = 2"
    by (simp add: classes_def class_rows_def)
  from r(4) have "length added = 1"
    by (simp add: mx) (simp add: classes_def class_rows_def)
  then obtain a where a: "added = [a]" by (cases added) auto
  from r(3) have "class_rows ''carport-fixed'' (?t @ added) = 2"
    unfolding mx by (simp add: classes_def)
  with a have "class_label a = ''carport-fixed''"
    by (simp add: class_rows_def split: if_splits)
  with r(2) a have "a = \<lparr>filename = ''3.png'', class_label = ''carport-fixed'', bbox = (2, 2, 7, 7)\<rparr>"
    by auto
  with r(1) a u show ?thesis by simp
qed

section \<open>The files written by trainMountingConfigClassifier\<close>

lemma labels_path_inject: "labels_path a = labels_path b \<longleftrightarrow> a = b"
  by (simp add: labels_path_def)

lemma conversion_step_files:
  assumes "conversion_step train_path val_path fs = Inr fs2"
  shows "\<exists>train_rows val_rows.
      fs2 = fs(labels_path train_path \<mapsto> Csv train_rows, labels_path val_path \<mapsto> Csv val_rows)"
  using assms
  by (auto simp: conversion_step_def xml_to_csv_def
      split: sum.splits option.splits file_content.splits)

text \<open>
  C5, as stated, fails when one directory is given as training and as validation
  directory: both tables are then the one file annotations.csv of that directory, the
  balancing rewrites it, and the validation data set is read from the resampled file.
\<close>

theorem C5_shared_directory_counterexample:
  "conversion_step ''data'' ''data''
     [''data/annotations/'' \<mapsto> XmlAnnotations
        [\<lparr>filename = ''1.png'', class_label = ''ground-fixed'', bbox = (0, 0, 9, 9)\<rparr>,
         \<lparr>filename = ''2.png'', class_label = ''ground-fixed'', bbox = (1, 1, 5, 5)\<rparr>,
         \<lparr>filename = ''3.png'', class_label = ''carport-fixed'', bbox = (2, 2, 7, 7)\<rparr>]]
   = Inr
     [''data/annotations/'' \<mapsto> XmlAnnotations
        [\<lparr>filename = ''1.png'', class_label = ''ground-fixed'', bbox = (0, 0, 9, 9)\<rparr>,
         \<lparr>filename = ''2.png'', class_label = ''ground-fixed'', bbox = (1, 1, 5, 5)\<rparr>,
         \<lparr>filename = ''3.png'', class_label = ''carport-fixed'', bbox = (2, 2, 7, 7)\<rparr>],
      ''data/annotations.csv'' \<mapsto> Csv
        [\<lparr>filename = ''1.png'', class_label = ''ground-fixed'', bbox = (0, 0, 9, 9)\<rparr>,
         \<lparr>filename = ''2.png'', class_label = ''ground-fixed'', bbox = (1, 1, 5, 5)\<rparr>,
         \<lparr>filename = ''3.png'', class_label = ''carport-fixed'', bbox = (2, 2, 7, 7)\<rparr>]]
   \<and> map_sum id val_dataset
       (trainMountingConfigClassifier (init 2 1 (1 / 10000)) ''data'' ''data''
          [''data/annotations/'' \<mapsto> XmlAnnotations
             [\<lparr>filename = ''1.png'', class_label = ''ground-fixed'', bbox = (0, 0, 9, 9)\<rparr>,
              \<lparr>filename = ''2.png'', class_label = ''ground-fixed'', bbox = (1, 1, 5, 5)\<rparr>,
              \<lparr>filename = ''3.png'', class_label = ''carport-fixed'', bbox = (2, 2, 7, 7)\<rparr>]]
          (sconst (1 / 2)))
     = Inr
        [\<lparr>filename = ''1.png'', class_label = ''ground-fixed'', bbox = (0, 0, 9, 9)\<rparr>,
         \<lparr>filename = ''2.png'', class_label = ''ground-fixed'', bbox = (1, 1, 5, 5)\<rparr>,
         \<lparr>filename = ''3.png'', class_label = ''carport-fixed'', bbox = (2, 2, 7, 7)\<rparr>,
         \<lparr>filename = ''3.png'', class_label = ''carport-fixed'', bbox = (2, 2, 7, 7)\<rparr>]"
  by (simp add: trainMountingConfigClassifier_def conversion_step_def balancing_step_def
      xml_to_csv_def read_csv_def to_csv_def labels_path_def oversample_def value_counts_def
      series_max_def class_index_list_def random_def py_getitem_def loc_def init_def)

text \<open>
  C5, amended: when the training and the validation directory differ (and the
  conversion succeeds), the balancing replaces the training table by the resampled
  one and changes no other file; the validation table stays as the conversion wrote
  it, and it is the table the validation data set is read from.
\<close>

theorem C5_balancing_rewrites_training_table_only:
  assumes "train_path \<noteq> val_path" and "uniform g"
    and "conversion_step train_path val_path fs = Inr fs2"
  shows "\<exists>call train_data resampled g'.
      trainMountingConfigClassifier self train_path val_path fs g = Inr call
    \<and> read_csv (labels_path train_path) fs2 = Inr train_data
    \<and> oversample train_data g = Inr (resampled, g')
    \<and> fs_after call (labels_path train_path) = Some (Csv resampled)
    \<and> dataset call = resampled
    \<and> fs_after call (labels_path val_path) = fs2 (labels_path val_path)
    \<and> read_csv (labels_path val_path) fs2 = Inr (val_dataset call)
    \<and> (\<forall>p. p \<noteq> labels_path train_path \<longrightarrow> fs_after call p = fs2 p)"
proof -
  from conversion_step_files [OF assms(3)] obtain train_rows val_rows where
    fs2: "fs2 = fs(labels_path train_path \<mapsto> Csv train_rows,
                   labels_path val_path \<mapsto> Csv val_rows)"
    by blast
  from assms(1) have ne: "labels_path train_path \<noteq> labels_path val_path"
    by (simp add: labels_path_inject)
  from fs2 ne have rt: "read_csv (labels_path train_path) fs2 = Inr train_rows"
    and rv: "read_csv (labels_path val_path) fs2 = Inr val_rows"
    by (simp_all add: read_csv_def)
  from oversample_total [OF assms(2), of train_rows]
  obtain added g' where os: "oversample train_rows g = Inr (train_rows @ added, g')"
    by blast
  let ?fs3 = "to_csv (train_rows @ added) (labels_path train_path) fs2"
  have bs: "balancing_step train_path fs2 g = Inr (?fs3, g')"
    by (simp add: balancing_step_def rt os)
  have r3t: "read_csv (labels_path train_path) ?fs3 = Inr (train_rows @ added)"
    by (simp add: read_csv_def to_csv_def)
  have r3v: "read_csv (labels_path val_path) ?fs3 = Inr val_rows"
    using ne fs2 by (simp add: read_csv_def to_csv_def)
  have call: "trainMountingConfigClassifier self train_path val_path fs g
      = Inr \<lparr>fs_after = ?fs3, rng_after = g', dataset = train_rows @ added,
             val_dataset = val_rows, loader_batch_size = batch_size self,
             det_epochs = no_of_epochs self, det_learning_rate = learning_rate self\<rparr>"
    by (simp add: trainMountingConfigClassifier_def assms(3) bs r3t r3v)
  show ?thesis
    using rt os rv ne
    by (simp add: call to_csv_def)
qed

theorem C5_balancing_witness:
  "''train'' \<noteq> ''val'' \<and> uniform (sconst (1 / 2))
   \<and> map_sum id (\<lambda>call. (dataset call, val_dataset call))
       (trainMountingConfigClassifier (init 2 1 (1 / 10000)) ''train'' ''val''
          [''train/annotations/'' \<mapsto> XmlAnnotations
             [\<lparr>filename = ''1.png'', class_label = ''ground-fixed'', bbox = (0, 0, 9, 9)\<rparr>,
              \<lparr>filename = ''2.png'', class_label = ''ground-fixed'', bbox = (1, 1, 5, 5)\<rparr>,
              \<lparr>filename = ''3.png'', class_label = ''carport-fixed'', bbox = (2, 2, 7, 7)\<rparr>],
           ''val/annotations/'' \<mapsto> XmlAnnotations
             [\<lparr>filename = ''4.png'', class_label = ''ground-fixed'', bbox = (0, 0, 9, 9)\<rparr>,
              \<lparr>filename = ''5.png'', class_label = ''ground-fixed'', bbox = (1, 1, 5, 5)\<rparr>,
              \<lparr>filename = ''6.png'', class_label = ''carport-fixed'', bbox = (2, 2, 7, 7)\<rparr>]]
          (sconst (1 / 2)))
     = Inr
        ([\<lparr>filename = ''1.png'', class_label = ''ground-fixed'', bbox = (0, 0, 9, 9)\<rparr>,
          \<lparr>filename = ''2.png'', class_label = ''ground-fixed'', bbox = (1, 1, 5, 5)\<rparr>,
          \<lparr>filename = ''3.png'', class_label = ''carport-fixed'', bbox = (2, 2, 7, 7)\<rparr>,
          \<lparr>filename = ''3.png'', class_label = ''carport-fixed'', bbox = (2, 2, 7, 7)\<rparr>],
         [\<lparr>filename = ''4.png'', class_label = ''ground-fixed'', bbox = (0, 0, 9, 9)\<rparr>,
          \<lparr>filename = ''5.png'', class_label = ''ground-fixed'', bbox = (1, 1, 5, 5)\<rparr>,
          \<lparr>filename = ''6.png'', class_label = ''carport-fixed'', bbox = (2, 2, 7, 7)\<rparr>])"
proof -
  let ?t = "[\<lparr>filename = ''1.png'', class_label = ''ground-fixed'', bbox = (0 :: int, 0 :: int, 9 :: int, 9 :: int)\<rparr>,
              \<lparr>filename = ''2.png'', class_label = ''ground-fixed'', bbox = (1, 1, 5, 5)\<rparr>,
              \<lparr>filename = ''3.png'', class_label = ''carport-fixed'', bbox = (2, 2, 7, 7)\<rparr>]"
  let ?v = "[\<lparr>filename = ''4.png'', class_label = ''ground-fixed'', bbox = (0 :: int, 0 :: int, 9 :: int, 9 :: int)\<rparr>,
              \<lparr>filename = ''5.png'', class_label = ''ground-fixed'', bbox = (1, 1, 5, 5)\<rparr>,
              \<lparr>filename = ''6.png'', class_label = ''carport-fixed'', bbox = (2, 2, 7, 7)\<rparr>]"
  let ?fs = "[''train/annotations/'' \<mapsto> XmlAnnotations ?t, ''val/annotations/'' \<mapsto> XmlAnnotations ?v]"
  have ne: "''train'' \<noteq> ''val''" by simp
  have u: "uniform (sconst (1 / 2))" by (simp add: uniform_def)
  have cs: "conversion_step ''train'' ''val'' ?fs
      = Inr (?fs(''train/annotations.csv'' \<mapsto> Csv ?t, ''val/annotations.csv'' \<mapsto> Csv ?v))"
    by (simp add: conversion_step_def xml_to_csv_def labels_path_def)
  have os: "oversample ?t (sconst (1 / 2)) = Inr (?t @ [?t ! 2], sconst (1 / 2))"
    by (simp add: oversample_def value_counts_def series_max_def class_index_list_def
        random_def py_getitem_def loc_def)
  from C5_balancing_rewrites_training_table_only [OF ne u cs, of "init 2 1 (1 / 10000)"]
  obtain call train_data resampled g' where
    r: "trainMountingConfigClassifier (init 2 1 (1 / 10000)) ''train'' ''val'' ?fs (sconst (1 / 2))
        = Inr call"
      "read_csv (labels_path ''train'')
         (?fs(''train/annotations.csv'' \<mapsto> Csv ?t, ''val/annotations.csv'' \<mapsto> Csv ?v))
        = Inr train_data"
      "oversample train_data (sconst (1 / 2)) = Inr (resampled, g')"
      "dataset call = resampled"
      "read_csv (labels_path ''val'')
         (?fs(''train/annotations.csv'' \<mapsto> Csv ?t, ''val/annotations.csv'' \<mapsto> Csv ?v))
        = Inr (val_dataset call)"
    by blast
  from r(2) have td: "train_data = ?t" by (simp add: read_csv_def labels_path_def)
  from r(5) have vd: "val_dataset call = ?v" by (simp add: read_csv_def labels_path_def)
  from r(3) os td have "resampled = ?t @ [?t ! 2]" by simp
  with r(1,4) vd ne u show ?thesis by simp
qed

end
